theory Spec2Isabelle
  imports Complex_Main "HOL-Library.Multiset"
begin

section \<open>SecPipe: the agent's store, the analysis adapters and the pipeline workflow\<close>

text \<open>
  A shallow embedding of the SecPipe repository: the SQL store of the \<open>SecPipeAgent\<close>
  Durable Object with its internal endpoints (\<open>/update-status\<close>, \<open>/store-findings\<close>,
  \<open>/store-remediations\<close>) and the \<open>get_findings\<close> tool, the analysis stage adapters
  (\<open>stages/dependency.ts\<close>, \<open>stages/injection.ts\<close>, \<open>stages/secrets.ts\<close>, \<open>stages/utils.ts\<close>)
  and \<open>SecurityPipelineWorkflow.run\<close>.

  Conventions. A table is the list of its rows in insertion order. A \<open>TEXT\<close> column that
  holds \<open>JSON.stringify\<close> of an array is represented by the array it encodes, so that
  \<open>JSON.parse\<close> of the column gives the array back; \<open>NULL\<close> is \<open>None\<close>. \<open>Date.now()\<close> is
  an argument of the operation that reads the clock. The percentage is a real number
  (the source computes with IEEE doubles; rounding is not modelled).
\<close>

subsection \<open>Findings and remediations as the workflow passes them around\<close>

record location =
  startLine :: int
  endLine :: int
  snippet :: string

record path_node =
  node_name :: string
  node_type :: string
  node_description :: string

text \<open>
  \<open>types.ts\<close> is not among the sources; the fields are those the agent reads in
  \<open>/store-findings\<close> and writes in \<open>mapFindingFromDb\<close>. A sanitizer descriptor is opaque
  text here. A field the agent guards with \<open>||\<close> may be absent (\<open>None\<close> is \<open>undefined\<close>).
\<close>

type_synonym sanitizer = string

record reachability_analysis =
  hasUserInputPath :: bool
  dataFlowPath :: "path_node list option"
  sanitizersInPath :: "sanitizer list option"
  falsePositiveReason :: "string option"

record finding =
  Finding_id :: string
  category :: string
  severity :: string
  title :: string
  description :: string
  location :: location
  cweId :: "string option"
  owaspCategory :: "string option"
  isReachable :: bool
  reachabilityAnalysis :: reachability_analysis

record remediation =
  Remediation_id :: string
  findingId :: string
  originalCode :: string
  fixedCode :: string
  explanation :: string
  diffHunks :: "string list"
  createdAt :: int

record synthesis_result =
  totalRaw :: int
  noiseReductionPercent :: real
  summary :: string

subsection \<open>The three tables of \<open>initializeDatabase\<close>\<close>

record review_row =
  reviews_id :: string
  user_id :: string
  code :: string
  language :: string
  status :: string
  reviews_created_at :: int
  updated_at :: int
  workflow_instance_id :: "string option"
  total_findings_raw :: int
  total_findings_filtered :: int
  noise_reduction_percent :: real
  current_stage :: "string option"
  error :: "string option"

record finding_row =
  findings_id :: string
  findings_review_id :: string
  findings_category :: string
  findings_severity :: string
  findings_title :: string
  findings_description :: string
  location_start_line :: int
  location_end_line :: int
  location_snippet :: string
  cwe_id :: "string option"
  owasp_category :: "string option"
  is_reachable :: int
  has_user_input_path :: int
  data_flow_path :: "path_node list option"
  sanitizers_in_path :: "sanitizer list option"
  false_positive_reason :: "string option"
  findings_approved :: int
  approved_at :: "int option"

record remediation_row =
  remediations_id :: string
  finding_id :: string
  remediations_review_id :: string
  original_code :: string
  fixed_code :: string
  remediations_explanation :: string
  diff_hunks :: "string list"
  remediations_created_at :: int

record db =
  reviews :: "review_row list"
  findings :: "finding_row list"
  remediations :: "remediation_row list"

text \<open>JavaScript's \<open>s || null\<close> and \<open>s || undefined\<close> on an optional string: the empty
  string is falsy, so it goes the way of the missing value.\<close>

definition or_null :: "string option \<Rightarrow> string option" where
  "or_null v = (case v of None \<Rightarrow> None | Some s \<Rightarrow> if s = [] then None else Some s)"

text \<open>\<open>INSERT OR REPLACE\<close> on a table whose primary key is \<open>id\<close>: the row that holds
  the key is deleted and the new row is inserted.\<close>

definition insert_or_replace :: "('r \<Rightarrow> string) \<Rightarrow> 'r \<Rightarrow> 'r list \<Rightarrow> 'r list" where
  "insert_or_replace key r tbl = filter (\<lambda>x. key x \<noteq> key r) tbl @ [r]"

text \<open>The row \<open>/store-findings\<close> binds for one finding; \<open>approved\<close> and \<open>approved_at\<close> are
  not in the column list and take their defaults.\<close>

definition finding_to_row :: "string \<Rightarrow> finding \<Rightarrow> finding_row" where
  "finding_to_row reviewId f =
     \<lparr> findings_id = Finding_id f,
       findings_review_id = reviewId,
       findings_category = category f,
       findings_severity = severity f,
       findings_title = title f,
       findings_description = description f,
       location_start_line = startLine (location f),
       location_end_line = endLine (location f),
       location_snippet = snippet (location f),
       cwe_id = or_null (cweId f),
       owasp_category = or_null (owaspCategory f),
       is_reachable = (if isReachable f then 1 else 0),
       has_user_input_path = (if hasUserInputPath (reachabilityAnalysis f) then 1 else 0),
       data_flow_path =
         Some (case dataFlowPath (reachabilityAnalysis f) of None \<Rightarrow> [] | Some p \<Rightarrow> p),
       sanitizers_in_path =
         Some (case sanitizersInPath (reachabilityAnalysis f) of None \<Rightarrow> [] | Some p \<Rightarrow> p),
       false_positive_reason = or_null (falsePositiveReason (reachabilityAnalysis f)),
       findings_approved = 0,
       approved_at = None \<rparr>"

text \<open>The \<open>/update-status\<close> endpoint. Its \<open>broadcastStatus\<close> message to the connected
  WebSocket clients leaves the store alone and is not modelled.\<close>

definition update_status :: "string \<Rightarrow> string \<Rightarrow> string option \<Rightarrow> int \<Rightarrow> db \<Rightarrow> db" where
  "update_status reviewId st currentStage now s =
     s\<lparr> reviews :=
          map (\<lambda>r. if reviews_id r = reviewId
                    then r\<lparr> status := st, current_stage := or_null currentStage,
                            updated_at := now \<rparr>
                    else r)
              (reviews s) \<rparr>"

text \<open>The \<open>/store-findings\<close> endpoint: one \<open>INSERT OR REPLACE\<close> for each finding in turn,
  then the \<open>UPDATE\<close> of the review's statistics.\<close>

definition store_findings ::
  "string \<Rightarrow> finding list \<Rightarrow> synthesis_result \<Rightarrow> int \<Rightarrow> db \<Rightarrow> db" where
  "store_findings reviewId fs synthesis now s =
     (let stored = foldl (\<lambda>tbl f. insert_or_replace findings_id (finding_to_row reviewId f) tbl)
                         (findings s) fs;
          reachableCount = length (filter isReachable fs)
      in s\<lparr> findings := stored,
             reviews :=
               map (\<lambda>r. if reviews_id r = reviewId
                         then r\<lparr> total_findings_raw := totalRaw synthesis,
                                 total_findings_filtered := int reachableCount,
                                 noise_reduction_percent := noiseReductionPercent synthesis,
                                 updated_at := now \<rparr>
                         else r)
                   (reviews s) \<rparr>)"

definition remediation_to_row :: "string \<Rightarrow> remediation \<Rightarrow> remediation_row" where
  "remediation_to_row reviewId rem =
     \<lparr> remediations_id = Remediation_id rem,
       finding_id = findingId rem,
       remediations_review_id = reviewId,
       original_code = originalCode rem,
       fixed_code = fixedCode rem,
       remediations_explanation = explanation rem,
       diff_hunks = diffHunks rem,
       remediations_created_at = createdAt rem \<rparr>"

text \<open>The \<open>/store-remediations\<close> endpoint.\<close>

definition store_remediations :: "string \<Rightarrow> remediation list \<Rightarrow> db \<Rightarrow> db" where
  "store_remediations reviewId rems s =
     s\<lparr> remediations :=
          foldl (\<lambda>tbl rem. insert_or_replace remediations_id (remediation_to_row reviewId rem) tbl)
                (remediations s) rems \<rparr>"

text \<open>The row \<open>submit_review\<close> inserts: the counters take the column defaults.\<close>

definition new_review :: "string \<Rightarrow> string \<Rightarrow> string \<Rightarrow> string \<Rightarrow> int \<Rightarrow> review_row" where
  "new_review reviewId userId src lang now =
     \<lparr> reviews_id = reviewId, user_id = userId, code = src, language = lang,
       status = ''pending'', reviews_created_at = now, updated_at = now,
       workflow_instance_id = None, total_findings_raw = 0, total_findings_filtered = 0,
       noise_reduction_percent = 0, current_stage = None, error = None \<rparr>"

subsection \<open>Reading findings back: \<open>mapFindingFromDb\<close> and the \<open>get_findings\<close> tool\<close>

definition mapFindingFromDb :: "finding_row \<Rightarrow> finding" where
  "mapFindingFromDb f =
     \<lparr> Finding_id = findings_id f,
       category = findings_category f,
       severity = findings_severity f,
       title = findings_title f,
       description = findings_description f,
       location = \<lparr> startLine = location_start_line f, endLine = location_end_line f,
                    snippet = location_snippet f \<rparr>,
       cweId = or_null (cwe_id f),
       owaspCategory = or_null (owasp_category f),
       isReachable = (is_reachable f = 1),
       reachabilityAnalysis =
         \<lparr> hasUserInputPath = (has_user_input_path f = 1),
           dataFlowPath = Some (case data_flow_path f of None \<Rightarrow> [] | Some p \<Rightarrow> p),
           sanitizersInPath = Some (case sanitizers_in_path f of None \<Rightarrow> [] | Some p \<Rightarrow> p),
           falsePositiveReason = or_null (false_positive_reason f) \<rparr> \<rparr>"

text \<open>The \<open>CASE severity\<close> expression of the \<open>ORDER BY\<close> clause.\<close>

definition severity_rank :: "string \<Rightarrow> nat" where
  "severity_rank sev =
     (if sev = ''critical'' then 1
      else if sev = ''high'' then 2
      else if sev = ''medium'' then 3
      else if sev = ''low'' then 4
      else 5)"

record findings_response =
  response_reviewId :: string
  response_stats :: "(int \<times> int \<times> real) option"
  findingsCount :: nat
  response_findings :: "finding list"

text \<open>
  \<open>includeFiltered\<close> is optional with default \<open>false\<close> (\<open>GetFindingsSchema\<close>). SQL leaves the
  order of rows of equal rank open; the model takes the stable order, one of the orders
  the query may return, and no theorem below depends on that choice.
\<close>

definition get_findings :: "string \<Rightarrow> bool option \<Rightarrow> db \<Rightarrow> findings_response" where
  "get_findings reviewId includeFilteredArg s =
     (let includeFiltered = (case includeFilteredArg of None \<Rightarrow> False | Some b \<Rightarrow> b);
          selected =
            (if includeFiltered
             then filter (\<lambda>r. findings_review_id r = reviewId) (findings s)
             else filter (\<lambda>r. findings_review_id r = reviewId \<and> is_reachable r = 1)
                         (findings s));
          rows = sort_key (\<lambda>r. severity_rank (findings_severity r)) selected;
          stats = (case find (\<lambda>r. reviews_id r = reviewId) (reviews s) of
                     None \<Rightarrow> None
                   | Some r \<Rightarrow> Some (total_findings_raw r, total_findings_filtered r,
                                      noise_reduction_percent r))
      in \<lparr> response_reviewId = reviewId,
           response_stats = stats,
           findingsCount = length rows,
           response_findings = map mapFindingFromDb rows \<rparr>)"

subsection \<open>Synthesis statistics and the filter's contract\<close>

text \<open>
  Modelled from the spec: \<open>runSynthesisStage\<close> (\<open>stages/synthesis.ts\<close> is not among the
  sources). Section 4.4: from the total raw count and the filtered finding list it
  computes the reachable count and the noise-reduction percentage
  \<open>(raw - reachable) / raw * 100\<close>, defined as 0 when raw is 0, and a summary text. The
  summary is an argument, since the spec leaves its wording to the model.
\<close>

definition runSynthesisStage :: "string \<Rightarrow> nat \<Rightarrow> finding list \<Rightarrow> synthesis_result" where
  "runSynthesisStage summaryText raw fs =
     (let reachable = length (filter isReachable fs)
      in \<lparr> totalRaw = int raw,
           noiseReductionPercent =
             (if raw = 0 then 0 else (real raw - real reachable) / real raw * 100),
           summary = summaryText \<rparr>)"

text \<open>The relation between the three persisted statistics of a review.\<close>

definition stats_consistent :: "review_row \<Rightarrow> bool" where
  "stats_consistent r =
     (noise_reduction_percent r =
        (if total_findings_raw r = 0 then 0
         else (real_of_int (total_findings_raw r) - real_of_int (total_findings_filtered r))
                / real_of_int (total_findings_raw r) * 100))"

definition nonempty_text :: "string option \<Rightarrow> bool" where
  "nonempty_text v = (case v of None \<Rightarrow> False | Some s \<Rightarrow> s \<noteq> [])"

definition nonempty_path :: "path_node list option \<Rightarrow> bool" where
  "nonempty_path v = (case v of None \<Rightarrow> False | Some p \<Rightarrow> p \<noteq> [])"

text \<open>
  Modelled from the spec: the structural contract of \<open>runReachabilityFilter\<close>'s output
  (\<open>stages/reachability.ts\<close> is not among the sources). Section 4.3: reachable findings
  carry a non-empty data-flow path, unreachable findings carry a non-empty reason;
  section 8: \<open>isReachable == false\<close> iff \<open>falsePositiveReason\<close> is non-empty,
  \<open>isReachable == true\<close> iff \<open>dataFlowPath\<close> is non-empty.
\<close>

definition reachability_contract :: "finding \<Rightarrow> bool" where
  "reachability_contract f =
     ((\<not> isReachable f) = nonempty_text (falsePositiveReason (reachabilityAnalysis f)) \<and>
      isReachable f = nonempty_path (dataFlowPath (reachabilityAnalysis f)))"

subsection \<open>Stage utilities (\<open>stages/utils.ts\<close>)\<close>

datatype json =
    JNull
  | JBool bool
  | JNum real
  | JStr string
  | JArr "json list"
  | JObj "(string \<times> json) list"

datatype js_error = Error string | TypeError string

text \<open>What \<open>env.AI.run\<close> resolves to: a string, an object (with its \<open>response\<close> and
  \<open>text\<close> properties where they are strings), or anything else.\<close>

datatype ai_response =
    AiString string
  | AiObject "string option" "string option"
  | AiOther

definition runAIAnalysis :: "js_error + ai_response \<Rightarrow> js_error + string" where
  "runAIAnalysis call =
     (case call of
        Inl e \<Rightarrow> Inl e
      | Inr (AiString s) \<Rightarrow> Inr s
      | Inr (AiObject (Some s) t) \<Rightarrow> Inr s
      | Inr (AiObject None (Some s)) \<Rightarrow> Inr s
      | Inr (AiObject None None) \<Rightarrow> Inl (Error ''Unexpected AI response format'')
      | Inr AiOther \<Rightarrow> Inl (Error ''Unexpected AI response format''))"

text \<open>
  \<open>parseJsonResponse\<close> trims the text, takes the inside of a markdown fence and the
  outermost bracketed part where its two regular expressions match, and hands the
  result to \<open>JSON.parse\<close>. These built-ins are the argument \<open>decode\<close>: the value
  \<open>JSON.parse\<close> returns for a response text, \<open>None\<close> where it throws.
\<close>

definition parseJsonResponse :: "(string \<Rightarrow> json option) \<Rightarrow> string \<Rightarrow> js_error + json" where
  "parseJsonResponse decode response =
     (case decode response of
        None \<Rightarrow> Inl (Error ''Failed to parse AI response as JSON'')
      | Some v \<Rightarrow> Inr v)"

text \<open>\<open>generateId\<close> reads the clock and the random generator; the two base-36 texts it
  makes of them are the argument \<open>entropy\<close>.\<close>

definition generateId :: "string \<times> string \<Rightarrow> string \<Rightarrow> string" where
  "generateId entropy prefix =
     (case entropy of (timestamp, random) \<Rightarrow>
        if prefix \<noteq> [] then prefix @ ''-'' @ timestamp @ ''-'' @ random
        else timestamp @ ''-'' @ random)"

text \<open>The decimal text of an array index, as a template literal prints it.\<close>

fun dec :: "nat \<Rightarrow> string" where
  "dec n = (if n < 10 then [''0123456789'' ! n]
            else dec (n div 10) @ [''0123456789'' ! (n mod 10)])"

declare dec.simps [simp del]

subsection \<open>What the adapters do to one element of the response array\<close>

fun truthy :: "json \<Rightarrow> bool" where
  "truthy JNull = False"
| "truthy (JBool b) = b"
| "truthy (JNum x) = (x \<noteq> 0)"
| "truthy (JStr s) = (s \<noteq> [])"
| "truthy (JArr xs) = True"
| "truthy (JObj fs) = True"

text \<open>\<open>finding.id\<close> and \<open>finding.category\<close> on a value that is not \<open>null\<close>: only an
  object can carry these two properties; \<open>None\<close> is \<open>undefined\<close>.\<close>

fun get_prop :: "json \<Rightarrow> string \<Rightarrow> json option" where
  "get_prop (JObj fs) k = map_of fs k"
| "get_prop v k = None"

text \<open>JavaScript's \<open>a || b\<close>.\<close>

definition or_else :: "json option \<Rightarrow> json \<Rightarrow> json" where
  "or_else a b = (case a of None \<Rightarrow> b | Some v \<Rightarrow> if truthy v then v else b)"

text \<open>The own enumerable properties \<open>{...finding}\<close> copies.\<close>

fun spread :: "json \<Rightarrow> (string \<times> json) list" where
  "spread (JObj fs) = fs"
| "spread (JArr xs) = zip (map dec [0..<length xs]) xs"
| "spread (JStr s) = zip (map dec [0..<length s]) (map (\<lambda>c. JStr [c]) s)"
| "spread v = []"

text \<open>A property written after the spread: it replaces the copied one in place, or is
  added at the end.\<close>

fun set_prop :: "string \<Rightarrow> json \<Rightarrow> (string \<times> json) list \<Rightarrow> (string \<times> json) list" where
  "set_prop k v [] = [(k, v)]"
| "set_prop k v ((k', v') # fs) =
     (if k' = k then (k, v) # fs else (k', v') # set_prop k v fs)"

text \<open>\<open>Array.prototype.map\<close> with the index, for a callback that may throw.\<close>

fun map_indexed :: "(nat \<Rightarrow> json \<Rightarrow> js_error + json) \<Rightarrow> nat \<Rightarrow> json list \<Rightarrow> js_error + json list" where
  "map_indexed f i [] = Inr []"
| "map_indexed f i (x # xs) =
     (case f i x of
        Inl e \<Rightarrow> Inl e
      | Inr y \<Rightarrow> (case map_indexed f (Suc i) xs of Inl e \<Rightarrow> Inl e | Inr ys \<Rightarrow> Inr (y # ys)))"

text \<open>The callback of \<open>runDependencyStage\<close> and \<open>runSecretsStage\<close>:
  \<open>{...finding, id: finding.id || generateId(`<tag>-${index}`), category: <category>}\<close>.
  Reading \<open>finding.id\<close> of \<open>null\<close> throws.\<close>

definition tag_forced :: "string \<Rightarrow> string \<Rightarrow> (nat \<Rightarrow> string \<times> string) \<Rightarrow> nat \<Rightarrow> json \<Rightarrow> js_error + json" where
  "tag_forced tag cat entropy index finding =
     (if finding = JNull then Inl (TypeError ''Cannot read properties of null'')
      else Inr (JObj
        (set_prop ''category'' (JStr cat)
          (set_prop ''id''
             (or_else (get_prop finding ''id'')
                      (JStr (generateId (entropy index) (tag @ ''-'' @ dec index))))
             (spread finding)))))"

text \<open>The callback of \<open>runInjectionStage\<close>:
  \<open>{...finding, id: finding.id || generateId(`inj-${index}`),
     category: finding.category || "injection"}\<close>.\<close>

definition tag_injection :: "(nat \<Rightarrow> string \<times> string) \<Rightarrow> nat \<Rightarrow> json \<Rightarrow> js_error + json" where
  "tag_injection entropy index finding =
     (if finding = JNull then Inl (TypeError ''Cannot read properties of null'')
      else Inr (JObj
        (set_prop ''category'' (or_else (get_prop finding ''category'') (JStr ''injection''))
          (set_prop ''id''
             (or_else (get_prop finding ''id'')
                      (JStr (generateId (entropy index) (''inj-'' @ dec index))))
             (spread finding)))))"

subsection \<open>The adapters\<close>

text \<open>
  An adapter's arguments here are what it reads from outside: \<open>decode\<close>, \<open>entropy\<close> and
  the outcome \<open>ai\<close> of its one inference call (the prompt it builds is not part of the
  model). Its result is the array it resolves to, or the error it rejects with. Console
  output is not modelled.
\<close>

definition runDependencyStage ::
  "(string \<Rightarrow> json option) \<Rightarrow> (nat \<Rightarrow> string \<times> string) \<Rightarrow> js_error + ai_response
     \<Rightarrow> js_error + json list" where
  "runDependencyStage decode entropy ai =
     (case runAIAnalysis ai of
        Inl e \<Rightarrow> Inl e
      | Inr response \<Rightarrow>
          (case parseJsonResponse decode response of
             Inl e \<Rightarrow> Inl e
           | Inr parsed \<Rightarrow>
               (case parsed of
                  JArr xs \<Rightarrow> map_indexed (tag_forced ''dep'' ''dependency'' entropy) 0 xs
                | JNull \<Rightarrow> Inl (TypeError ''Cannot read properties of null'')
                | _ \<Rightarrow> Inl (TypeError ''findings.map is not a function''))))"

definition runSecretsStage ::
  "(string \<Rightarrow> json option) \<Rightarrow> (nat \<Rightarrow> string \<times> string) \<Rightarrow> js_error + ai_response
     \<Rightarrow> js_error + json list" where
  "runSecretsStage decode entropy ai =
     (case runAIAnalysis ai of
        Inl e \<Rightarrow> Inl e
      | Inr response \<Rightarrow>
          (case (case parseJsonResponse decode response of
                   Inl e \<Rightarrow> Inl e
                 | Inr parsed \<Rightarrow>
                     (case parsed of
                        JArr xs \<Rightarrow> map_indexed (tag_forced ''sec'' ''secrets'' entropy) 0 xs
                      | _ \<Rightarrow> Inr []))
           of Inl e \<Rightarrow> Inr []
            | Inr out \<Rightarrow> Inr out))"

record risk_area =
  risk_category :: string

record data_flow_map =
  sinks :: "string list"

record triage_result =
  triage_language :: string
  framework :: string
  codeType :: string
  riskAreas :: "risk_area list"
  dataFlowMap :: data_flow_map
  entryPoints :: "string list"

definition runInjectionStage ::
  "(string \<Rightarrow> json option) \<Rightarrow> (nat \<Rightarrow> string \<times> string) \<Rightarrow> triage_result
     \<Rightarrow> js_error + ai_response \<Rightarrow> js_error + json list" where
  "runInjectionStage decode entropy triage ai =
     (let hasInjectionRiskAreas =
            list_ex (\<lambda>area. risk_category area
                       \<in> set [''injection'', ''xss'', ''ssrf'', ''path_traversal''])
                    (riskAreas triage);
          hasSinks = (length (sinks (dataFlowMap triage)) > 0)
      in if \<not> hasInjectionRiskAreas \<and> \<not> hasSinks \<and> length (entryPoints triage) = 0
         then Inr []
         else
           (case runAIAnalysis ai of
              Inl e \<Rightarrow> Inl e
            | Inr response \<Rightarrow>
                (case (case parseJsonResponse decode response of
                         Inl e \<Rightarrow> Inl e
                       | Inr parsed \<Rightarrow>
                           (case parsed of
                              JArr xs \<Rightarrow> map_indexed (tag_injection entropy) 0 xs
                            | _ \<Rightarrow> Inr []))
                 of Inl e \<Rightarrow> Inr []
                  | Inr out \<Rightarrow> Inr out)))"

subsection \<open>The stage runner \<open>step.do\<close> and the join \<open>Promise.all\<close>\<close>

text \<open>
  \<open>step.do(name, {retries: {limit: n, ...}, timeout}, body)\<close> runs the body, and runs it
  again after a failed attempt until \<open>n\<close> retries are used up; it resolves to the first
  result and rejects with the last error. \<open>task k\<close> is what attempt \<open>k\<close> of the body comes
  to (an attempt that exceeds its timeout is a failed attempt; the delays between
  attempts are not modelled).
\<close>

fun step_do_from :: "nat \<Rightarrow> nat \<Rightarrow> (nat \<Rightarrow> js_error + 'a) \<Rightarrow> js_error + 'a" where
  "step_do_from k 0 task = task k"
| "step_do_from k (Suc n) task =
     (case task k of Inr v \<Rightarrow> Inr v | Inl e \<Rightarrow> step_do_from (Suc k) n task)"

definition step_do :: "nat \<Rightarrow> (nat \<Rightarrow> js_error + 'a) \<Rightarrow> js_error + 'a" where
  "step_do limit task = step_do_from 0 limit task"

text \<open>\<open>await Promise.all([d, a, i, c])\<close>: the four results when all four promises resolve,
  a rejection otherwise. Which rejection it reports when several reject depends on their
  timing; the model reports the first in array order.\<close>

definition promise_all4 ::
  "js_error + 'a \<Rightarrow> js_error + 'a \<Rightarrow> js_error + 'a \<Rightarrow> js_error + 'a
     \<Rightarrow> js_error + ('a \<times> 'a \<times> 'a \<times> 'a)" where
  "promise_all4 d a i c =
     (case d of Inl e \<Rightarrow> Inl e | Inr dv \<Rightarrow>
      (case a of Inl e \<Rightarrow> Inl e | Inr av \<Rightarrow>
       (case i of Inl e \<Rightarrow> Inl e | Inr iv \<Rightarrow>
        (case c of Inl e \<Rightarrow> Inl e | Inr cv \<Rightarrow> Inr (dv, av, iv, cv)))))"

subsection \<open>\<open>SecurityPipelineWorkflow.run\<close>\<close>

record approval_event =
  approved :: bool
  findingIds :: "string list"

datatype stage =
  Triage | Dependency | Auth | Injection | Secrets | Reachability | Synthesis | Remediation

text \<open>
  What a run meets outside the workflow: for every stage function the outcome of its
  \<open>k\<close>-th attempt on the arguments the workflow passes (the stage functions of
  \<open>./stages\<close> call the inference service; \<open>auth\<close>, \<open>reachability\<close>, \<open>synthesis\<close> and
  \<open>remediation\<close> are not among the sources), what \<open>step.waitForEvent\<close> delivers, and the
  clock each named step reads when it calls the agent.

  \<open>approval_wait\<close> is \<open>None\<close> when no \<open>approval\<close> event arrives within the 7 days. Then
  \<open>step.waitForEvent\<close> rejects; \<open>run\<close> has no handler around it, so the rejection leaves
  \<open>run\<close> (the error text below stands for the runtime's).

  \<open>run\<close> reaches the agent through
  \<open>SECPIPE_AGENT.idFromName(reviewId.split("-")[0] || "default")\<close>; the store a run
  starts from and leaves behind is the store of the Durable Object addressed this way.
  The steps that only call the agent (\<open>update-status-*\<close>, \<open>store-findings\<close>,
  \<open>store-remediations\<close>) are taken to succeed: the endpoints answer \<open>OK\<close> on every
  request.
\<close>

record stage_runs =
  triage_attempt :: "nat \<Rightarrow> js_error + triage_result"
  dependency_attempt :: "triage_result \<Rightarrow> nat \<Rightarrow> js_error + json list"
  auth_attempt :: "triage_result \<Rightarrow> nat \<Rightarrow> js_error + json list"
  injection_attempt :: "triage_result \<Rightarrow> nat \<Rightarrow> js_error + json list"
  secrets_attempt :: "nat \<Rightarrow> js_error + json list"
  reachability_attempt :: "json list \<Rightarrow> data_flow_map \<Rightarrow> nat \<Rightarrow> js_error + finding list"
  synthesis_attempt :: "nat \<Rightarrow> finding list \<Rightarrow> nat \<Rightarrow> js_error + synthesis_result"
  remediation_attempt :: "finding list \<Rightarrow> nat \<Rightarrow> js_error + remediation list"
  approval_wait :: "approval_event option"
  clock :: "string \<Rightarrow> int"

text \<open>
  What a run leaves behind: the agent's store, the stage functions whose step was
  begun (in program order; the four analysis steps begin together), the findings handed
  to the remediation stage if it was called, and what \<open>run\<close> resolves to (the synthesis
  and the remediations of \<open>{status: "completed", synthesis, remediations}\<close>) or rejects
  with.
\<close>

record run_result =
  final :: db
  begun :: "stage list"
  remediation_input :: "finding list option"
  outcome :: "js_error + (synthesis_result \<times> remediation list)"

text \<open>From \<open>step.waitForEvent\<close> to the end of \<open>run\<close>.\<close>

definition approval_phase ::
  "stage_runs \<Rightarrow> string \<Rightarrow> finding list \<Rightarrow> synthesis_result \<Rightarrow> stage list \<Rightarrow> db
     \<Rightarrow> run_result" where
  "approval_phase E reviewId filteredFindings synthesis tr s =
     (case approval_wait E of
        None \<Rightarrow>
          \<lparr> final = s, begun = tr, remediation_input = None,
            outcome = Inl (Error ''waitForEvent timed out'') \<rparr>
      | Some approval \<Rightarrow>
          if \<not> approved approval \<or> length (findingIds approval) = 0
          then
            \<lparr> final = update_status reviewId ''completed'' None
                        (clock E ''update-status-completed-no-remediation'') s,
              begun = tr, remediation_input = None, outcome = Inr (synthesis, []) \<rparr>
          else
            (let s1 = update_status reviewId ''remediating'' (Some ''remediation'')
                        (clock E ''update-status-remediating'') s;
                 approvedFindings =
                   filter (\<lambda>f. isReachable f \<and> Finding_id f \<in> set (findingIds approval))
                          filteredFindings
             in case step_do 2 (remediation_attempt E approvedFindings) of
                  Inl e \<Rightarrow>
                    \<lparr> final = s1, begun = tr @ [Remediation],
                      remediation_input = Some approvedFindings, outcome = Inl e \<rparr>
                | Inr rems \<Rightarrow>
                    \<lparr> final = update_status reviewId ''completed'' None
                                (clock E ''update-status-completed'')
                                (store_remediations reviewId rems s1),
                      begun = tr @ [Remediation],
                      remediation_input = Some approvedFindings,
                      outcome = Inr (synthesis, rems) \<rparr>))"

text \<open>From the \<open>filtering\<close> status update to the suspension point.\<close>

definition filtering_phase ::
  "stage_runs \<Rightarrow> string \<Rightarrow> triage_result \<Rightarrow> json list \<Rightarrow> stage list \<Rightarrow> db \<Rightarrow> run_result" where
  "filtering_phase E reviewId triage allRawFindings tr s =
     (let s1 = update_status reviewId ''filtering'' (Some ''reachability'')
                 (clock E ''update-status-filtering'') s
      in case step_do 2 (reachability_attempt E allRawFindings (dataFlowMap triage)) of
           Inl e \<Rightarrow>
             \<lparr> final = s1, begun = tr @ [Reachability], remediation_input = None,
               outcome = Inl e \<rparr>
         | Inr filteredFindings \<Rightarrow>
             (case step_do 2 (synthesis_attempt E (length allRawFindings) filteredFindings) of
                Inl e \<Rightarrow>
                  \<lparr> final = s1, begun = tr @ [Reachability, Synthesis],
                    remediation_input = None, outcome = Inl e \<rparr>
              | Inr synthesis \<Rightarrow>
                  (let s2 = store_findings reviewId filteredFindings synthesis
                              (clock E ''store-findings'') s1;
                       s3 = update_status reviewId ''awaiting_approval'' (Some ''approval'')
                              (clock E ''update-status-awaiting-approval'') s2
                   in approval_phase E reviewId filteredFindings synthesis
                        (tr @ [Reachability, Synthesis]) s3)))"

definition run :: "stage_runs \<Rightarrow> string \<Rightarrow> db \<Rightarrow> run_result" where
  "run E reviewId s =
     (case step_do 2 (triage_attempt E) of
        Inl e \<Rightarrow> \<lparr> final = s, begun = [Triage], remediation_input = None, outcome = Inl e \<rparr>
      | Inr triage \<Rightarrow>
          (let s1 = update_status reviewId ''analyzing'' (Some ''dependency'')
                      (clock E ''update-status-analyzing'') s;
               tr = [Triage, Dependency, Auth, Injection, Secrets]
           in case promise_all4 (step_do 2 (dependency_attempt E triage))
                                (step_do 2 (auth_attempt E triage))
                                (step_do 2 (injection_attempt E triage))
                                (step_do 2 (secrets_attempt E)) of
                Inl e \<Rightarrow> \<lparr> final = s1, begun = tr, remediation_input = None, outcome = Inl e \<rparr>
              | Inr (dependencyFindings, authFindings, injectionFindings, secretsFindings) \<Rightarrow>
                  filtering_phase E reviewId triage
                    (dependencyFindings @ authFindings @ injectionFindings @ secretsFindings)
                    tr s1))"

text \<open>The statuses of the rows of review \<open>reviewId\<close> in a store.\<close>

definition review_status :: "string \<Rightarrow> db \<Rightarrow> string list" where
  "review_status reviewId s = map status (filter (\<lambda>r. reviews_id r = reviewId) (reviews s))"

subsection \<open>Sample data\<close>

text \<open>A finding as the reachability filter returns it, and a store holding one freshly
  submitted review.\<close>

definition sample_finding :: "string \<Rightarrow> string \<Rightarrow> bool \<Rightarrow> finding" where
  "sample_finding fid sev reach =
     \<lparr> Finding_id = fid, category = ''injection'', severity = sev,
       title = ''SQL built by concatenation'', description = ''query text from request'',
       location = \<lparr> startLine = 3, endLine = 4, snippet = ''db.query(q + id)'' \<rparr>,
       cweId = Some ''CWE-89'', owaspCategory = None,
       isReachable = reach,
       reachabilityAnalysis =
         \<lparr> hasUserInputPath = reach,
           dataFlowPath =
             (if reach
              then Some [\<lparr> node_name = ''req.query.id'', node_type = ''source'',
                           node_description = ''request parameter'' \<rparr>]
              else None),
           sanitizersInPath = Some [],
           falsePositiveReason = (if reach then None else Some ''dead code'') \<rparr> \<rparr>"

definition sample_db :: db where
  "sample_db = \<lparr> reviews = [new_review ''rev-1'' ''anonymous'' ''src'' ''auto'' 0],
                 findings = [], remediations = [] \<rparr>"

text \<open>What \<open>parseJsonResponse\<close>'s text handling and \<open>JSON.parse\<close> make of four response
  texts: an array of two findings (the first without an id and labelled \<open>xss\<close>, the
  second with an id and no category), the empty array, an object that is not an array,
  and prose, which \<open>JSON.parse\<close> rejects. None of the four has a markdown fence, and the
  bracket expression matches the first three as a whole and the prose nowhere.
  \<open>sample_decode\<close> is \<open>None\<close> on every other text; the samples never ask it for one.\<close>

definition sample_array_text :: string where
  "sample_array_text = ''[{\"category\": \"xss\"}, {\"id\": \"F-7\"}]''"

definition sample_object_text :: string where
  "sample_object_text = ''{\"findings\": []}''"

definition sample_prose_text :: string where
  "sample_prose_text = ''No issues found.''"

definition sample_decode :: "string \<Rightarrow> json option" where
  "sample_decode text =
     (if text = sample_array_text
      then Some (JArr [JObj [(''category'', JStr ''xss'')], JObj [(''id'', JStr ''F-7'')]])
      else if text = ''[]'' then Some (JArr [])
      else if text = sample_object_text then Some (JObj [(''findings'', JArr [])])
      else None)"

definition sample_entropy :: "nat \<Rightarrow> string \<times> string" where
  "sample_entropy index = (''lx3k2a'', ''q7w9e1'')"

definition sample_triage :: triage_result where
  "sample_triage =
     \<lparr> triage_language = ''javascript'', framework = ''express'', codeType = ''api'',
       riskAreas = [\<lparr> risk_category = ''injection'' \<rparr>],
       dataFlowMap = \<lparr> sinks = [''db.query''] \<rparr>,
       entryPoints = [''GET /user''] \<rparr>"

text \<open>A run's surroundings. The dependency stage and the approval are the two
  arguments. Triage answers at once and auth returns one finding; the injection stage is the adapter on the
  array response; the secrets stage fails its first attempt and is the adapter on the
  prose response from the first retry on; the filter returns three findings (\<open>f1\<close> and
  \<open>f3\<close> reachable, \<open>f2\<close> not); the synthesis is the one of \<open>runSynthesisStage\<close>; the
  remediation stage returns one record for each finding it is handed.\<close>

definition sample_remediation :: "finding \<Rightarrow> remediation" where
  "sample_remediation f =
     \<lparr> Remediation_id = ''rem-'' @ Finding_id f, findingId = Finding_id f,
       originalCode = snippet (location f), fixedCode = ''db.query(q, [id])'',
       explanation = ''bind the parameter'', diffHunks = [], createdAt = 100 \<rparr>"

definition sample_filtered :: "finding list" where
  "sample_filtered =
     [sample_finding ''f1'' ''high'' True, sample_finding ''f2'' ''low'' False,
      sample_finding ''f3'' ''critical'' True]"

definition sample_runs ::
  "(nat \<Rightarrow> js_error + json list) \<Rightarrow> approval_event option \<Rightarrow> stage_runs" where
  "sample_runs dep approval =
     \<lparr> triage_attempt = (\<lambda>k. Inr sample_triage),
       dependency_attempt = (\<lambda>triage k. dep k),
       auth_attempt = (\<lambda>triage k. Inr [JObj [(''id'', JStr ''A-1''), (''category'', JStr ''auth'')]]),
       injection_attempt =
         (\<lambda>triage k. runInjectionStage sample_decode sample_entropy triage
                        (Inr (AiString sample_array_text))),
       secrets_attempt =
         (\<lambda>k. if k = 0 then Inl (Error ''inference call failed'')
              else runSecretsStage sample_decode sample_entropy
                     (Inr (AiString sample_prose_text))),
       reachability_attempt = (\<lambda>raw dfm k. Inr sample_filtered),
       synthesis_attempt = (\<lambda>raw fs k. Inr (runSynthesisStage ''two of three reachable'' raw fs)),
       remediation_attempt = (\<lambda>fs k. Inr (map sample_remediation fs)),
       approval_wait = approval,
       clock = (\<lambda>step. 100) \<rparr>"

section \<open>The store: statistics, the filter's contract, idempotence, reading back\<close>

subsection \<open>Auxiliary facts\<close>

lemma list_all_mapI: "(\<And>x. x \<in> set xs \<Longrightarrow> P (f x)) \<Longrightarrow> list_all P (map f xs)"
  by (simp add: list_all_iff)

lemma set_insert_or_replace:
  "set (insert_or_replace key r tbl) = {x \<in> set tbl. key x \<noteq> key r} \<union> {r}"
  by (auto simp: insert_or_replace_def)

lemma set_foldl_ior:
  "set (foldl (\<lambda>tbl x. insert_or_replace key (g x) tbl) tbl xs) \<subseteq> set tbl \<union> g ` set xs"
proof (induction xs rule: rev_induct)
  case Nil
  then show ?case by simp
next
  case (snoc x xs)
  have "set (foldl (\<lambda>tbl x. insert_or_replace key (g x) tbl) tbl (xs @ [x]))
          \<subseteq> set (foldl (\<lambda>tbl x. insert_or_replace key (g x) tbl) tbl xs) \<union> {g x}"
    by (auto simp: set_insert_or_replace)
  with snoc.IH show ?case
    by auto
qed

lemma findings_store_findings:
  "findings (store_findings reviewId fs synthesis now s) =
     foldl (\<lambda>tbl f. insert_or_replace findings_id (finding_to_row reviewId f) tbl)
           (findings s) fs"
  by (simp add: store_findings_def Let_def)

lemma response_findings_get_findings:
  "response_findings (get_findings reviewId inc s) =
     map mapFindingFromDb
       (sort_key (\<lambda>r. severity_rank (findings_severity r))
          (filter (\<lambda>r. findings_review_id r = reviewId \<and> (inc = Some True \<or> is_reachable r = 1))
                  (findings s)))"
proof (cases inc)
  case None
  then show ?thesis by (simp add: get_findings_def Let_def)
next
  case (Some b)
  then show ?thesis by (cases b) (simp_all add: get_findings_def Let_def)
qed

lemma reviews_store_findings:
  "reviews (store_findings reviewId fs synthesis now s) =
     map (\<lambda>r. if reviews_id r = reviewId
               then r\<lparr> total_findings_raw := totalRaw synthesis,
                       total_findings_filtered := int (length (filter isReachable fs)),
                       noise_reduction_percent := noiseReductionPercent synthesis,
                       updated_at := now \<rparr>
               else r)
         (reviews s)"
  by (simp add: store_findings_def Let_def)

lemma keys_foldl_ior:
  "key ` set (foldl (\<lambda>tbl x. insert_or_replace key (g x) tbl) tbl xs)
     \<subseteq> key ` set tbl \<union> key ` g ` set xs"
  using set_foldl_ior [of key g tbl xs] by blast

lemma foldl_ior_split:
  "foldl (\<lambda>tbl x. insert_or_replace key (g x) tbl) tbl xs =
     filter (\<lambda>r. key r \<notin> key ` g ` set xs) tbl @
     foldl (\<lambda>tbl x. insert_or_replace key (g x) tbl) [] xs"
proof (induction xs rule: rev_induct)
  case Nil
  then show ?case by simp
next
  case (snoc x xs)
  let ?F = "foldl (\<lambda>tbl x. insert_or_replace key (g x) tbl)"
  have "?F tbl (xs @ [x]) = insert_or_replace key (g x) (?F tbl xs)"
    by simp
  also have "\<dots> = insert_or_replace key (g x)
                     (filter (\<lambda>r. key r \<notin> key ` g ` set xs) tbl @ ?F [] xs)"
    using snoc.IH by simp
  also have "\<dots> = filter (\<lambda>r. key r \<notin> key ` g ` set (xs @ [x])) tbl @
                    insert_or_replace key (g x) (?F [] xs)"
    by (auto simp: insert_or_replace_def intro: filter_cong)
  also have "insert_or_replace key (g x) (?F [] xs) = ?F [] (xs @ [x])"
    by simp
  finally show ?case .
qed

lemma foldl_ior_twice:
  "foldl (\<lambda>tbl x. insert_or_replace key (g x) tbl)
         (foldl (\<lambda>tbl x. insert_or_replace key (g x) tbl) tbl xs) xs =
   foldl (\<lambda>tbl x. insert_or_replace key (g x) tbl) tbl xs"
proof -
  let ?F = "\<lambda>t. foldl (\<lambda>tbl x. insert_or_replace key (g x) tbl) t xs"
  let ?out = "\<lambda>r. key r \<notin> key ` g ` set xs"
  have "key ` set (?F []) \<subseteq> key ` g ` set xs"
    using keys_foldl_ior [of key g "[]" xs] by simp
  then have none: "filter ?out (?F []) = []"
    by (auto simp: filter_empty_conv)
  have split: "\<And>t. ?F t = filter ?out t @ ?F []"
    by (rule foldl_ior_split)
  have "?F (?F tbl) = filter ?out (?F tbl) @ ?F []"
    by (rule split)
  also have "filter ?out (?F tbl) = filter ?out (filter ?out tbl @ ?F [])"
    using split [of tbl] by simp
  also have "\<dots> = filter ?out tbl"
    using none by simp
  also have "filter ?out tbl @ ?F [] = ?F tbl"
    by (rule split [symmetric])
  finally show ?thesis .
qed

subsection \<open>Review statistics\<close>

lemma runSynthesisStage_consistent:
  "stats_consistent
     (r\<lparr> total_findings_raw := totalRaw (runSynthesisStage sm raw fs),
         total_findings_filtered := int (length (filter isReachable fs)),
         noise_reduction_percent := noiseReductionPercent (runSynthesisStage sm raw fs),
         updated_at := now \<rparr>)"
  by (simp add: stats_consistent_def runSynthesisStage_def Let_def)

text \<open>
  Claim C1. After \<open>/store-findings\<close> the review's raw count, filtered count and
  noise-reduction percentage are the ones of its arguments, whatever they were before:
  the raw count and the percentage are \<open>synthesis.totalRaw\<close> and
  \<open>synthesis.noiseReductionPercent\<close>, the filtered count is the number of findings with
  \<open>isReachable\<close> true. With the synthesis the workflow passes (computed by the synthesis
  stage from the number of raw findings and the same finding list), every review of the
  store keeps \<open>noise_reduction_percent = (raw - filtered) / raw * 100\<close> when its raw count
  is not 0 and \<open>0\<close> when it is 0; a freshly submitted review has it too.
\<close>

theorem store_findings_review_stats:
  assumes "list_all stats_consistent (reviews s)"
  shows "list_all stats_consistent
           (reviews (store_findings reviewId fs (runSynthesisStage sm (length raws) fs) now s))
       \<and> list_all (\<lambda>r. reviews_id r = reviewId \<longrightarrow>
             total_findings_raw r = totalRaw synthesis \<and>
             total_findings_filtered r = int (length (filter isReachable fs)) \<and>
             noise_reduction_percent r = noiseReductionPercent synthesis)
           (reviews (store_findings reviewId fs synthesis now s))
       \<and> stats_consistent (new_review rid uid src lang t0)"
proof (intro conjI)
  show "list_all stats_consistent
          (reviews (store_findings reviewId fs (runSynthesisStage sm (length raws) fs) now s))"
    unfolding reviews_store_findings
  proof (rule list_all_mapI)
    fix r
    assume "r \<in> set (reviews s)"
    with assms have "stats_consistent r"
      by (simp add: list_all_iff)
    then show "stats_consistent
       (if reviews_id r = reviewId
        then r\<lparr> total_findings_raw := totalRaw (runSynthesisStage sm (length raws) fs),
                total_findings_filtered := int (length (filter isReachable fs)),
                noise_reduction_percent :=
                  noiseReductionPercent (runSynthesisStage sm (length raws) fs),
                updated_at := now \<rparr>
        else r)"
      by (simp add: runSynthesisStage_consistent)
  qed
  show "list_all (\<lambda>r. reviews_id r = reviewId \<longrightarrow>
             total_findings_raw r = totalRaw synthesis \<and>
             total_findings_filtered r = int (length (filter isReachable fs)) \<and>
             noise_reduction_percent r = noiseReductionPercent synthesis)
           (reviews (store_findings reviewId fs synthesis now s))"
    unfolding reviews_store_findings
    by (rule list_all_mapI) simp
  show "stats_consistent (new_review rid uid src lang t0)"
    by (simp add: stats_consistent_def new_review_def)
qed

lemma sample_db_consistent: "list_all stats_consistent (reviews sample_db)"
  by (simp add: sample_db_def stats_consistent_def new_review_def)

lemma sample_store_stats:
  "map (\<lambda>r. (total_findings_raw r, total_findings_filtered r, noise_reduction_percent r))
       (reviews (store_findings ''rev-1''
              [sample_finding ''f1'' ''high'' True, sample_finding ''f2'' ''low'' False]
              (runSynthesisStage ''two candidates'' (length [JNull, JNull, JNull, JNull])
                 [sample_finding ''f1'' ''high'' True, sample_finding ''f2'' ''low'' False])
              9 sample_db))
     = [(4, 1, 75)]"
  by (simp add: sample_db_def store_findings_def new_review_def sample_finding_def
        runSynthesisStage_def Let_def)

theorem store_findings_review_stats_witness:
  "list_all stats_consistent (reviews sample_db) \<and>
   list_all stats_consistent
     (reviews (store_findings ''rev-1''
        [sample_finding ''f1'' ''high'' True, sample_finding ''f2'' ''low'' False]
        (runSynthesisStage ''two candidates'' (length [JNull, JNull, JNull, JNull])
           [sample_finding ''f1'' ''high'' True, sample_finding ''f2'' ''low'' False])
        9 sample_db)) \<and>
   map (\<lambda>r. (total_findings_raw r, total_findings_filtered r, noise_reduction_percent r))
     (reviews (store_findings ''rev-1''
        [sample_finding ''f1'' ''high'' True, sample_finding ''f2'' ''low'' False]
        (runSynthesisStage ''two candidates'' (length [JNull, JNull, JNull, JNull])
           [sample_finding ''f1'' ''high'' True, sample_finding ''f2'' ''low'' False])
        9 sample_db))
     = [(4, 1, 75)]"
  by (intro conjI sample_db_consistent sample_store_stats
        store_findings_review_stats [OF sample_db_consistent, THEN conjunct1])

subsection \<open>The filter's contract through the store\<close>

lemma roundtrip_fields:
  "isReachable (mapFindingFromDb (finding_to_row reviewId f)) = isReachable f \<and>
   nonempty_text (falsePositiveReason (reachabilityAnalysis
       (mapFindingFromDb (finding_to_row reviewId f))))
     = nonempty_text (falsePositiveReason (reachabilityAnalysis f)) \<and>
   nonempty_path (dataFlowPath (reachabilityAnalysis
       (mapFindingFromDb (finding_to_row reviewId f))))
     = nonempty_path (dataFlowPath (reachabilityAnalysis f))"
  by (simp add: mapFindingFromDb_def finding_to_row_def nonempty_text_def nonempty_path_def
        or_null_def split: option.splits)

lemma roundtrip_contract:
  "reachability_contract (mapFindingFromDb (finding_to_row reviewId f)) = reachability_contract f"
  unfolding reachability_contract_def using roundtrip_fields [of reviewId f] by simp

text \<open>
  Claim C2. For findings that meet the reachability filter's contract (\<open>isReachable\<close> is
  false iff \<open>falsePositiveReason\<close> is non-empty, and true iff \<open>dataFlowPath\<close> is non-empty),
  persisting them with \<open>/store-findings\<close> into a store whose rows meet the contract gives
  a store whose rows all meet it, every finding \<open>get_findings\<close> then returns meets it, and
  so does each finding written as a row and read back with \<open>mapFindingFromDb\<close>.
\<close>

theorem reachability_contract_persisted:
  assumes fs: "list_all reachability_contract fs"
    and tbl: "list_all (\<lambda>r. reachability_contract (mapFindingFromDb r)) (findings s)"
  shows "list_all (\<lambda>r. reachability_contract (mapFindingFromDb r))
           (findings (store_findings reviewId fs synthesis now s))
       \<and> list_all reachability_contract
           (response_findings (get_findings reviewId inc
              (store_findings reviewId fs synthesis now s)))
       \<and> list_all (\<lambda>f. reachability_contract (mapFindingFromDb (finding_to_row reviewId f))) fs"
proof -
  let ?s' = "store_findings reviewId fs synthesis now s"
  have rows: "reachability_contract (mapFindingFromDb r)" if "r \<in> set (findings ?s')" for r
  proof -
    from that set_foldl_ior [of findings_id "finding_to_row reviewId" "findings s" fs]
    have "r \<in> set (findings s) \<or> r \<in> finding_to_row reviewId ` set fs"
      unfolding findings_store_findings by blast
    then show ?thesis
    proof
      assume "r \<in> set (findings s)"
      with tbl show ?thesis by (simp add: list_all_iff)
    next
      assume "r \<in> finding_to_row reviewId ` set fs"
      then obtain f where "f \<in> set fs" and "r = finding_to_row reviewId f"
        by blast
      with fs show ?thesis by (simp add: list_all_iff roundtrip_contract)
    qed
  qed
  have one: "list_all (\<lambda>r. reachability_contract (mapFindingFromDb r)) (findings ?s')"
    using rows by (simp add: list_all_iff)
  have two: "list_all reachability_contract (response_findings (get_findings reviewId inc ?s'))"
    unfolding response_findings_get_findings
    by (rule list_all_mapI) (simp add: rows)
  have three: "list_all (\<lambda>f. reachability_contract (mapFindingFromDb (finding_to_row reviewId f))) fs"
    using fs by (simp add: roundtrip_contract)
  from one two three show ?thesis by blast
qed

lemma sample_findings_contract:
  "list_all reachability_contract
     [sample_finding ''f1'' ''high'' True, sample_finding ''f2'' ''low'' False]"
  by (simp add: reachability_contract_def sample_finding_def nonempty_text_def nonempty_path_def)

lemma sample_db_contract:
  "list_all (\<lambda>r. reachability_contract (mapFindingFromDb r)) (findings sample_db)"
  by (simp add: sample_db_def)

theorem reachability_contract_persisted_witness:
  "list_all reachability_contract
     [sample_finding ''f1'' ''high'' True, sample_finding ''f2'' ''low'' False] \<and>
   list_all (\<lambda>r. reachability_contract (mapFindingFromDb r)) (findings sample_db) \<and>
   list_all reachability_contract
     (response_findings (get_findings ''rev-1'' (Some True)
        (store_findings ''rev-1''
           [sample_finding ''f1'' ''high'' True, sample_finding ''f2'' ''low'' False]
           (runSynthesisStage ''two candidates'' 4
              [sample_finding ''f1'' ''high'' True, sample_finding ''f2'' ''low'' False])
           9 sample_db)))"
  by (intro conjI sample_findings_contract sample_db_contract
        reachability_contract_persisted [OF sample_findings_contract sample_db_contract,
          THEN conjunct2, THEN conjunct1])

subsection \<open>Idempotence of \<open>/store-findings\<close>\<close>

text \<open>
  Claim C3. Calling \<open>/store-findings\<close> twice with the same review id, findings and
  synthesis leaves the store that one call leaves: the same rows of \<open>findings\<close> and
  \<open>remediations\<close>, and the same rows of \<open>reviews\<close> in every column but \<open>updated_at\<close>, which
  holds the clock reading of the last call. Two calls at clock readings \<open>t1\<close> and \<open>t2\<close>
  leave exactly the store of one call at \<open>t2\<close>.
\<close>

theorem store_findings_idempotent:
  "store_findings reviewId fs synthesis t2 (store_findings reviewId fs synthesis t1 s)
     = store_findings reviewId fs synthesis t2 s
   \<and> findings (store_findings reviewId fs synthesis t2 (store_findings reviewId fs synthesis t1 s))
     = findings (store_findings reviewId fs synthesis t1 s)
   \<and> remediations (store_findings reviewId fs synthesis t2 (store_findings reviewId fs synthesis t1 s))
     = remediations (store_findings reviewId fs synthesis t1 s)
   \<and> map (\<lambda>r. r\<lparr> updated_at := 0 \<rparr>)
       (reviews (store_findings reviewId fs synthesis t2 (store_findings reviewId fs synthesis t1 s)))
     = map (\<lambda>r. r\<lparr> updated_at := 0 \<rparr>) (reviews (store_findings reviewId fs synthesis t1 s))
   \<and> store_findings reviewId fs synthesis t1 (store_findings reviewId fs synthesis t1 s)
     = store_findings reviewId fs synthesis t1 s"
proof -
  have twice: "store_findings reviewId fs synthesis b (store_findings reviewId fs synthesis a s)
     = store_findings reviewId fs synthesis b s" for a b
    by (simp add: store_findings_def Let_def foldl_ior_twice comp_def)
  have f: "findings (store_findings reviewId fs synthesis b s)
     = findings (store_findings reviewId fs synthesis a s)" for a b
    by (simp add: findings_store_findings)
  have m: "remediations (store_findings reviewId fs synthesis b s)
     = remediations (store_findings reviewId fs synthesis a s)" for a b
    by (simp add: store_findings_def Let_def)
  have r: "map (\<lambda>r. r\<lparr> updated_at := 0 \<rparr>) (reviews (store_findings reviewId fs synthesis b s))
     = map (\<lambda>r. r\<lparr> updated_at := 0 \<rparr>) (reviews (store_findings reviewId fs synthesis a s))" for a b
    unfolding reviews_store_findings map_map
    by (rule map_cong) simp_all
  show ?thesis
    unfolding twice using f [of t1 t2] m [of t1 t2] r [of t1 t2] by simp
qed

subsection \<open>What \<open>get_findings\<close> returns\<close>

text \<open>
  Claim C9. The findings \<open>get_findings\<close> returns are in ascending order of severity rank,
  where \<open>critical\<close> has rank 1, \<open>high\<close> 2, \<open>medium\<close> 3, \<open>low\<close> 4 and every other severity 5.
  Nothing is said about the order of findings of equal rank.
\<close>

theorem get_findings_sorted_by_severity:
  "sorted (map (\<lambda>f. severity_rank (severity f)) (response_findings (get_findings reviewId inc s)))
   \<and> severity_rank ''critical'' = 1 \<and> severity_rank ''high'' = 2
   \<and> severity_rank ''medium'' = 3 \<and> severity_rank ''low'' = 4
   \<and> (severity_rank sev = 5) = (sev \<notin> {''critical'', ''high'', ''medium'', ''low''})"
proof -
  have sev: "(\<lambda>f. severity_rank (severity f)) \<circ> mapFindingFromDb
               = (\<lambda>r. severity_rank (findings_severity r))"
    by (rule ext) (simp add: mapFindingFromDb_def)
  have "sorted (map (\<lambda>f. severity_rank (severity f))
                  (response_findings (get_findings reviewId inc s)))"
    unfolding response_findings_get_findings map_map sev
    by (rule sorted_sort_key)
  moreover have "severity_rank ''critical'' = 1" "severity_rank ''high'' = 2"
    "severity_rank ''medium'' = 3" "severity_rank ''low'' = 4"
    by (simp_all add: severity_rank_def)
  moreover have "(severity_rank sev = 5) = (sev \<notin> {''critical'', ''high'', ''medium'', ''low''})"
    by (simp add: severity_rank_def)
  ultimately show ?thesis by blast
qed

text \<open>
  Claim C10. \<open>get_findings\<close> returns, as a multiset, the rows of the review read back with
  \<open>mapFindingFromDb\<close>: all of them when \<open>includeFiltered\<close> is true, and only those with
  \<open>is_reachable = 1\<close> when it is false or omitted. In the latter case every returned
  finding has \<open>isReachable\<close> true.
\<close>

theorem get_findings_include_filtered:
  "mset (response_findings (get_findings reviewId inc s)) =
     image_mset mapFindingFromDb
       (filter_mset (\<lambda>r. findings_review_id r = reviewId \<and> (inc = Some True \<or> is_reachable r = 1))
          (mset (findings s)))
   \<and> list_all isReachable (response_findings (get_findings reviewId None s))
   \<and> list_all isReachable (response_findings (get_findings reviewId (Some False) s))
   \<and> length (response_findings (get_findings reviewId (Some True) s))
       = length (filter (\<lambda>r. findings_review_id r = reviewId) (findings s))"
proof -
  have one: "mset (response_findings (get_findings reviewId inc s)) =
     image_mset mapFindingFromDb
       (filter_mset (\<lambda>r. findings_review_id r = reviewId \<and> (inc = Some True \<or> is_reachable r = 1))
          (mset (findings s)))"
    unfolding response_findings_get_findings by simp
  have reach: "list_all isReachable (response_findings (get_findings reviewId i s))"
    if "i \<noteq> Some True" for i
    unfolding response_findings_get_findings
    by (rule list_all_mapI) (simp add: mapFindingFromDb_def that)
  have four: "length (response_findings (get_findings reviewId (Some True) s))
       = length (filter (\<lambda>r. findings_review_id r = reviewId) (findings s))"
    unfolding response_findings_get_findings by simp
  from one reach [of None] reach [of "Some False"] four show ?thesis by simp
qed

section \<open>The adapters\<close>

subsection \<open>Decimal index texts\<close>

lemma dec_digits: "set (dec n) \<subseteq> set ''0123456789''"
proof (induction n rule: dec.induct)
  case (1 n)
  show ?case
  proof (cases "n < 10")
    case True
    then have "''0123456789'' ! n \<in> set ''0123456789''"
      by (intro nth_mem) simp
    with True show ?thesis
      by (subst dec.simps) simp
  next
    case False
    have "n mod 10 < length ''0123456789''"
      by simp
    then have "''0123456789'' ! (n mod 10) \<in> set ''0123456789''"
      by (rule nth_mem)
    with False "1.IH" show ?thesis
      by (subst dec.simps) simp
  qed
qed

lemma dec_no_dash: "CHR ''-'' \<notin> set (dec n)"
  using dec_digits [of n] by auto

lemma dec_nonempty: "dec n \<noteq> []"
  by (subst dec.simps) simp

lemma digit_inj:
  assumes "a < 10" "b < 10" "''0123456789'' ! a = ''0123456789'' ! b"
  shows "a = b"
proof -
  have "distinct ''0123456789''"
    by simp
  moreover have "a < length ''0123456789''" "b < length ''0123456789''"
    using assms by simp_all
  ultimately show ?thesis
    using assms(3) by (simp only: nth_eq_iff_index_eq)
qed

lemma dec_inj: "dec n = dec m \<Longrightarrow> n = m"
proof (induction n arbitrary: m rule: dec.induct)
  case (1 n)
  show ?case
  proof (cases "n < 10")
    case n: True
    show ?thesis
    proof (cases "m < 10")
      case True
      with n "1.prems" have "''0123456789'' ! n = ''0123456789'' ! m"
        by (simp add: dec.simps [of n] dec.simps [of m])
      with n True show ?thesis
        by (rule digit_inj)
    next
      case False
      then have "length (dec m) \<ge> 2"
        using dec_nonempty [of "m div 10"]
        by (subst dec.simps) (cases "dec (m div 10)"; simp)
      moreover from n have "length (dec n) = 1"
        by (subst dec.simps) simp
      ultimately show ?thesis
        using "1.prems" by simp
    qed
  next
    case n: False
    show ?thesis
    proof (cases "m < 10")
      case True
      from n have "length (dec n) \<ge> 2"
        using dec_nonempty [of "n div 10"]
        by (subst dec.simps) (cases "dec (n div 10)"; simp)
      moreover from True have "length (dec m) = 1"
        by (subst dec.simps) simp
      ultimately show ?thesis
        using "1.prems" by simp
    next
      case False
      from n False "1.prems"
      have eq: "dec (n div 10) @ [''0123456789'' ! (n mod 10)]
                  = dec (m div 10) @ [''0123456789'' ! (m mod 10)]"
        by (simp add: dec.simps [of n] dec.simps [of m])
      then have "dec (n div 10) = dec (m div 10)"
        and d: "''0123456789'' ! (n mod 10) = ''0123456789'' ! (m mod 10)"
        by simp_all
      with n "1.IH" have "n div 10 = m div 10"
        by simp
      moreover have "n mod 10 = m mod 10"
        by (rule digit_inj [OF _ _ d]) simp_all
      ultimately show ?thesis
        by (metis div_mult_mod_eq)
    qed
  qed
qed

lemma append_sep_eq:
  assumes "c \<notin> set xs" "c \<notin> set ys" "xs @ c # a = ys @ c # b"
  shows "xs = ys"
proof -
  have "takeWhile (\<lambda>x. x \<noteq> c) (xs @ c # a) = xs"
    using assms(1) by (auto simp: takeWhile_tail)
  moreover have "takeWhile (\<lambda>x. x \<noteq> c) (ys @ c # b) = ys"
    using assms(2) by (auto simp: takeWhile_tail)
  ultimately show ?thesis
    using assms(3) by simp
qed

lemma generateId_prefix:
  "generateId e (tag @ ''-'' @ dec i) = tag @ ''-'' @ dec i @ ''-'' @ fst e @ ''-'' @ snd e"
  by (cases e) (simp add: generateId_def)

lemma generateId_distinct:
  assumes "i \<noteq> j"
  shows "generateId e1 (tag @ ''-'' @ dec i) \<noteq> generateId e2 (tag @ ''-'' @ dec j)"
proof
  assume "generateId e1 (tag @ ''-'' @ dec i) = generateId e2 (tag @ ''-'' @ dec j)"
  then have "dec i @ CHR ''-'' # (fst e1 @ ''-'' @ snd e1)
               = dec j @ CHR ''-'' # (fst e2 @ ''-'' @ snd e2)"
    unfolding generateId_prefix by simp
  then have "dec i = dec j"
    by (rule append_sep_eq [OF dec_no_dash dec_no_dash])
  then have "i = j"
    by (rule dec_inj)
  with assms show False
    by simp
qed

subsection \<open>Properties written after the spread\<close>

lemma map_of_set_prop_same: "map_of (set_prop k v fs) k = Some v"
  by (induction fs) auto

lemma map_of_set_prop_other: "k' \<noteq> k \<Longrightarrow> map_of (set_prop k v fs) k' = map_of fs k'"
  by (induction fs) auto

lemma tag_forced_props:
  assumes "tag_forced tag cat entropy i x = Inr y"
  shows "get_prop y ''category'' = Some (JStr cat)"
    and "get_prop y ''id''
           = Some (or_else (get_prop x ''id'')
                     (JStr (generateId (entropy i) (tag @ ''-'' @ dec i))))"
  using assms
  by (auto simp: tag_forced_def map_of_set_prop_same map_of_set_prop_other split: if_splits)

lemma tag_injection_props:
  assumes "tag_injection entropy i x = Inr y"
  shows "get_prop y ''category''
           = Some (or_else (get_prop x ''category'') (JStr ''injection''))"
    and "get_prop y ''id''
           = Some (or_else (get_prop x ''id'')
                     (JStr (generateId (entropy i) (''inj'' @ ''-'' @ dec i))))"
  using assms
  by (auto simp: tag_injection_def map_of_set_prop_same map_of_set_prop_other split: if_splits)

lemma map_indexed_nth:
  "map_indexed f i xs = Inr ys \<Longrightarrow>
     length ys = length xs \<and> (\<forall>k<length xs. f (i + k) (xs ! k) = Inr (ys ! k))"
proof (induction xs arbitrary: i ys)
  case Nil
  then show ?case by simp
next
  case (Cons x xs)
  from Cons.prems obtain y ys' where y: "f i x = Inr y"
    and rest: "map_indexed f (Suc i) xs = Inr ys'" and ys: "ys = y # ys'"
    by (auto split: sum.splits)
  from Cons.IH [OF rest]
  have len: "length ys' = length xs"
    and nth: "\<And>k. k < length xs \<Longrightarrow> f (Suc i + k) (xs ! k) = Inr (ys' ! k)"
    by simp_all
  show ?case
  proof (intro conjI allI impI)
    show "length ys = length (x # xs)"
      using len ys by simp
  next
    fix k
    assume "k < length (x # xs)"
    then show "f (i + k) ((x # xs) ! k) = Inr (ys ! k)"
      using y ys nth [of "k - 1"] by (cases k) simp_all
  qed
qed

subsection \<open>What each adapter returns\<close>

lemma runDependencyStage_Inr:
  assumes "runDependencyStage decode entropy ai = Inr out"
  shows "\<exists>response xs. runAIAnalysis ai = Inr response \<and> decode response = Some (JArr xs) \<and>
           map_indexed (tag_forced ''dep'' ''dependency'' entropy) 0 xs = Inr out"
  using assms
  by (auto simp: runDependencyStage_def parseJsonResponse_def
           split: sum.splits option.splits json.splits)

lemma runSecretsStage_Inr:
  assumes "runSecretsStage decode entropy ai = Inr out" "out \<noteq> []"
  shows "\<exists>response xs. runAIAnalysis ai = Inr response \<and> decode response = Some (JArr xs) \<and>
           map_indexed (tag_forced ''sec'' ''secrets'' entropy) 0 xs = Inr out"
  using assms
  by (auto simp: runSecretsStage_def parseJsonResponse_def
           split: sum.splits option.splits json.splits)

lemma runInjectionStage_Inr:
  assumes "runInjectionStage decode entropy triage ai = Inr out" "out \<noteq> []"
  shows "\<exists>response xs. runAIAnalysis ai = Inr response \<and> decode response = Some (JArr xs) \<and>
           map_indexed (tag_injection entropy) 0 xs = Inr out"
  using assms
  by (auto simp: runInjectionStage_def parseJsonResponse_def Let_def
           split: sum.splits option.splits json.splits if_splits)

subsection \<open>The sample responses\<close>

lemma sample_texts_distinct:
  "sample_prose_text \<noteq> sample_array_text" "sample_prose_text \<noteq> ''[]''"
  "sample_prose_text \<noteq> sample_object_text" "sample_object_text \<noteq> sample_array_text"
  "sample_object_text \<noteq> ''[]''"
  by (simp_all add: sample_prose_text_def sample_array_text_def sample_object_text_def)

lemma sample_decode_values:
  "sample_decode sample_prose_text = None"
  "sample_decode sample_object_text = Some (JObj [(''findings'', JArr [])])"
  "sample_decode sample_array_text
     = Some (JArr [JObj [(''category'', JStr ''xss'')], JObj [(''id'', JStr ''F-7'')]])"
  by (simp_all add: sample_decode_def sample_texts_distinct)

lemma sample_dependency_prose:
  "runDependencyStage sample_decode sample_entropy (Inr (AiString sample_prose_text))
     = Inl (Error ''Failed to parse AI response as JSON'')"
  by (simp add: runDependencyStage_def runAIAnalysis_def parseJsonResponse_def
        sample_decode_values)

lemma sample_secrets_prose:
  "runSecretsStage sample_decode sample_entropy (Inr (AiString sample_prose_text)) = Inr []"
  by (simp add: runSecretsStage_def runAIAnalysis_def parseJsonResponse_def sample_decode_values)

lemma sample_injection_run:
  "runInjectionStage sample_decode sample_entropy sample_triage
       (Inr (AiString sample_array_text))
     = Inr [JObj [(''category'', JStr ''xss''), (''id'', JStr ''inj-0-lx3k2a-q7w9e1'')],
            JObj [(''id'', JStr ''F-7''), (''category'', JStr ''injection'')]]"
  by (simp add: runInjectionStage_def runAIAnalysis_def parseJsonResponse_def
        sample_decode_values sample_triage_def sample_entropy_def tag_injection_def
        or_else_def generateId_def dec.simps Let_def)

lemma sample_dependency_run:
  "runDependencyStage sample_decode sample_entropy (Inr (AiString sample_array_text))
     = Inr [JObj [(''category'', JStr ''dependency''), (''id'', JStr ''dep-0-lx3k2a-q7w9e1'')],
            JObj [(''id'', JStr ''F-7''), (''category'', JStr ''dependency'')]]"
  by (simp add: runDependencyStage_def runAIAnalysis_def parseJsonResponse_def
        sample_decode_values sample_entropy_def tag_forced_def or_else_def generateId_def
        dec.simps)

subsection \<open>Malformed output\<close>

text \<open>
  The injection and the secrets adapter answer a response that \<open>JSON.parse\<close> rejects, or
  that is not an array, with the empty list; the dependency adapter, which has neither
  the \<open>try\<close> block nor the \<open>Array.isArray\<close> test, rejects.
\<close>

lemma secrets_soft_failure:
  assumes "runAIAnalysis ai = Inr response"
    and "decode response = None \<or> (\<exists>v. decode response = Some v \<and> (\<forall>xs. v \<noteq> JArr xs))"
  shows "runSecretsStage decode entropy ai = Inr []"
  using assms
  by (auto simp: runSecretsStage_def parseJsonResponse_def split: json.splits)

lemma injection_soft_failure:
  assumes "runAIAnalysis ai = Inr response"
    and "decode response = None \<or> (\<exists>v. decode response = Some v \<and> (\<forall>xs. v \<noteq> JArr xs))"
  shows "runInjectionStage decode entropy triage ai = Inr []"
  using assms
  by (auto simp: runInjectionStage_def parseJsonResponse_def Let_def split: json.splits)

lemma dependency_hard_failure:
  assumes "runAIAnalysis ai = Inr response"
    and "decode response = None \<or> (\<exists>v. decode response = Some v \<and> (\<forall>xs. v \<noteq> JArr xs))"
  shows "\<exists>e. runDependencyStage decode entropy ai = Inl e"
  using assms
  by (auto simp: runDependencyStage_def parseJsonResponse_def split: json.splits)

subsection \<open>Ids and categories\<close>

text \<open>
  Claim C8, as stated, fails for the injection adapter: on a response whose first
  finding is labelled \<open>xss\<close> and has no id, and whose second finding has the id \<open>F-7\<close> and
  no category, \<open>runInjectionStage\<close> returns the first finding with the category \<open>xss\<close> of
  the response, not with the task's category \<open>injection\<close>.
\<close>

theorem injection_keeps_response_category:
  "runInjectionStage sample_decode sample_entropy sample_triage
       (Inr (AiString sample_array_text))
     = Inr [JObj [(''category'', JStr ''xss''), (''id'', JStr ''inj-0-lx3k2a-q7w9e1'')],
            JObj [(''id'', JStr ''F-7''), (''category'', JStr ''injection'')]]"
  by (rule sample_injection_run)

text \<open>
  Claim C8, amended. For the finding at index \<open>k\<close> of what the dependency, the secrets or
  the injection adapter returns: its \<open>id\<close> is the id of the response's finding at index \<open>k\<close>
  when that is truthy, and otherwise the generated id \<open>generateId(`<tag>-${k}`)\<close> with the
  task's tag (\<open>dep\<close>, \<open>sec\<close>, \<open>inj\<close>). Its \<open>category\<close> is \<open>dependency\<close> for the dependency
  adapter and \<open>secrets\<close> for the secrets adapter whatever the response carried; the
  injection adapter keeps the response's category when it is truthy and sets \<open>injection\<close>
  only otherwise. A generated id starts with the tag and a dash, and the ids generated
  for two different indices differ.
\<close>

theorem adapter_ids_and_categories:
  assumes "k < length out"
  shows "(runDependencyStage decode entropy ai = Inr out \<longrightarrow>
            (\<exists>response xs. runAIAnalysis ai = Inr response \<and>
               decode response = Some (JArr xs) \<and> length xs = length out \<and>
               get_prop (out ! k) ''id''
                 = Some (or_else (get_prop (xs ! k) ''id'')
                           (JStr (generateId (entropy k) (''dep'' @ ''-'' @ dec k)))) \<and>
               get_prop (out ! k) ''category'' = Some (JStr ''dependency'')))
       \<and> (runSecretsStage decode entropy ai = Inr out \<longrightarrow>
            (\<exists>response xs. runAIAnalysis ai = Inr response \<and>
               decode response = Some (JArr xs) \<and> length xs = length out \<and>
               get_prop (out ! k) ''id''
                 = Some (or_else (get_prop (xs ! k) ''id'')
                           (JStr (generateId (entropy k) (''sec'' @ ''-'' @ dec k)))) \<and>
               get_prop (out ! k) ''category'' = Some (JStr ''secrets'')))
       \<and> (runInjectionStage decode entropy triage ai = Inr out \<longrightarrow>
            (\<exists>response xs. runAIAnalysis ai = Inr response \<and>
               decode response = Some (JArr xs) \<and> length xs = length out \<and>
               get_prop (out ! k) ''id''
                 = Some (or_else (get_prop (xs ! k) ''id'')
                           (JStr (generateId (entropy k) (''inj'' @ ''-'' @ dec k)))) \<and>
               get_prop (out ! k) ''category''
                 = Some (or_else (get_prop (xs ! k) ''category'') (JStr ''injection''))))
       \<and> (\<forall>j. j \<noteq> k \<longrightarrow>
             generateId e (tag @ ''-'' @ dec j) \<noteq> generateId e' (tag @ ''-'' @ dec k))
       \<and> take (length tag + 1) (generateId e' (tag @ ''-'' @ dec k)) = tag @ ''-''"
proof (intro conjI impI allI)
  from assms have ne: "out \<noteq> []"
    by auto
  {
    assume "runDependencyStage decode entropy ai = Inr out"
    then obtain response xs where r: "runAIAnalysis ai = Inr response"
      and d: "decode response = Some (JArr xs)"
      and m: "map_indexed (tag_forced ''dep'' ''dependency'' entropy) 0 xs = Inr out"
      using runDependencyStage_Inr by blast
    from map_indexed_nth [OF m] assms
    have len: "length xs = length out"
      and t: "tag_forced ''dep'' ''dependency'' entropy k (xs ! k) = Inr (out ! k)"
      by simp_all
    from r d len tag_forced_props [OF t]
    show "\<exists>response xs. runAIAnalysis ai = Inr response \<and>
               decode response = Some (JArr xs) \<and> length xs = length out \<and>
               get_prop (out ! k) ''id''
                 = Some (or_else (get_prop (xs ! k) ''id'')
                           (JStr (generateId (entropy k) (''dep'' @ ''-'' @ dec k)))) \<and>
               get_prop (out ! k) ''category'' = Some (JStr ''dependency'')"
      by blast
  }
  {
    assume "runSecretsStage decode entropy ai = Inr out"
    then obtain response xs where r: "runAIAnalysis ai = Inr response"
      and d: "decode response = Some (JArr xs)"
      and m: "map_indexed (tag_forced ''sec'' ''secrets'' entropy) 0 xs = Inr out"
      using runSecretsStage_Inr ne by blast
    from map_indexed_nth [OF m] assms
    have len: "length xs = length out"
      and t: "tag_forced ''sec'' ''secrets'' entropy k (xs ! k) = Inr (out ! k)"
      by simp_all
    from r d len tag_forced_props [OF t]
    show "\<exists>response xs. runAIAnalysis ai = Inr response \<and>
               decode response = Some (JArr xs) \<and> length xs = length out \<and>
               get_prop (out ! k) ''id''
                 = Some (or_else (get_prop (xs ! k) ''id'')
                           (JStr (generateId (entropy k) (''sec'' @ ''-'' @ dec k)))) \<and>
               get_prop (out ! k) ''category'' = Some (JStr ''secrets'')"
      by blast
  }
  {
    assume "runInjectionStage decode entropy triage ai = Inr out"
    then obtain response xs where r: "runAIAnalysis ai = Inr response"
      and d: "decode response = Some (JArr xs)"
      and m: "map_indexed (tag_injection entropy) 0 xs = Inr out"
      using runInjectionStage_Inr ne by blast
    from map_indexed_nth [OF m] assms
    have len: "length xs = length out"
      and t: "tag_injection entropy k (xs ! k) = Inr (out ! k)"
      by simp_all
    from r d len tag_injection_props [OF t]
    show "\<exists>response xs. runAIAnalysis ai = Inr response \<and>
               decode response = Some (JArr xs) \<and> length xs = length out \<and>
               get_prop (out ! k) ''id''
                 = Some (or_else (get_prop (xs ! k) ''id'')
                           (JStr (generateId (entropy k) (''inj'' @ ''-'' @ dec k)))) \<and>
               get_prop (out ! k) ''category''
                 = Some (or_else (get_prop (xs ! k) ''category'') (JStr ''injection''))"
      by blast
  }
  {
    fix j
    assume "j \<noteq> k"
    then show "generateId e (tag @ ''-'' @ dec j) \<noteq> generateId e' (tag @ ''-'' @ dec k)"
      by (rule generateId_distinct)
  }
  show "take (length tag + 1) (generateId e' (tag @ ''-'' @ dec k)) = tag @ ''-''"
    unfolding generateId_prefix by simp
qed

theorem adapter_ids_and_categories_witness:
  "(1::nat) < length
       [JObj [(''category'', JStr ''dependency''), (''id'', JStr ''dep-0-lx3k2a-q7w9e1'')],
        JObj [(''id'', JStr ''F-7''), (''category'', JStr ''dependency'')]]
   \<and> (\<exists>response xs. runAIAnalysis (Inr (AiString sample_array_text)) = Inr response \<and>
         sample_decode response = Some (JArr xs) \<and>
         length xs = length
           [JObj [(''category'', JStr ''dependency''), (''id'', JStr ''dep-0-lx3k2a-q7w9e1'')],
            JObj [(''id'', JStr ''F-7''), (''category'', JStr ''dependency'')]] \<and>
         get_prop
           ([JObj [(''category'', JStr ''dependency''), (''id'', JStr ''dep-0-lx3k2a-q7w9e1'')],
             JObj [(''id'', JStr ''F-7''), (''category'', JStr ''dependency'')]] ! 1) ''id''
           = Some (or_else (get_prop (xs ! 1) ''id'')
                     (JStr (generateId (sample_entropy 1) (''dep'' @ ''-'' @ dec 1)))) \<and>
         get_prop
           ([JObj [(''category'', JStr ''dependency''), (''id'', JStr ''dep-0-lx3k2a-q7w9e1'')],
             JObj [(''id'', JStr ''F-7''), (''category'', JStr ''dependency'')]] ! 1) ''category''
           = Some (JStr ''dependency''))"
proof -
  have h: "(1::nat) < length
       [JObj [(''category'', JStr ''dependency''), (''id'', JStr ''dep-0-lx3k2a-q7w9e1'')],
        JObj [(''id'', JStr ''F-7''), (''category'', JStr ''dependency'')]]"
    by simp
  show ?thesis
    by (rule conjI [OF h])
       (rule adapter_ids_and_categories [OF h, THEN conjunct1, THEN mp,
          OF sample_dependency_run])
qed

section \<open>The workflow\<close>

subsection \<open>The stage runner\<close>

lemma step_do_2:
  "step_do 2 task =
     (case task 0 of Inr v \<Rightarrow> Inr v
      | Inl e \<Rightarrow> (case task 1 of Inr v \<Rightarrow> Inr v | Inl e' \<Rightarrow> task 2))"
  by (simp add: step_do_def numeral_2_eq_2 split: sum.splits)

lemma step_do_2_exhausted: "isl (step_do 2 task) = (isl (task 0) \<and> isl (task 1) \<and> isl (task 2))"
  by (simp add: step_do_2 split: sum.splits)

lemma step_do_2_result:
  assumes "step_do 2 task = Inr v"
  shows "\<exists>k. task k = Inr v"
  using assms by (auto simp: step_do_2 split: sum.splits)

lemma promise_all4_Inr:
  "(promise_all4 d a i c = Inr (dv, av, iv, cv)) = (d = Inr dv \<and> a = Inr av \<and> i = Inr iv \<and> c = Inr cv)"
  by (auto simp: promise_all4_def split: sum.splits)

lemma promise_all4_Inl:
  "isl (promise_all4 d a i c) = (isl d \<or> isl a \<or> isl i \<or> isl c)"
  by (auto simp: promise_all4_def split: sum.splits)

subsection \<open>What the agent's endpoints leave alone\<close>

lemma update_status_frame:
  "findings (update_status reviewId st cs now s) = findings s"
  "remediations (update_status reviewId st cs now s) = remediations s"
  by (simp_all add: update_status_def)

lemma store_findings_frame:
  "remediations (store_findings reviewId fs synthesis now s) = remediations s"
  by (simp add: store_findings_def Let_def)

lemma store_remediations_frame:
  "findings (store_remediations reviewId rems s) = findings s"
  "reviews (store_remediations reviewId rems s) = reviews s"
  by (simp_all add: store_remediations_def)

lemma review_status_update_status:
  "review_status reviewId (update_status reviewId st cs now s)
     = map (\<lambda>_. st) (review_status reviewId s)"
proof -
  have "review_status reviewId \<lparr>reviews = rs, findings = fs, remediations = ms\<rparr>
          = map status (filter (\<lambda>r. reviews_id r = reviewId) rs)" for rs fs ms
    by (simp add: review_status_def)
  have "map status (filter (\<lambda>r. reviews_id r = reviewId)
           (map (\<lambda>r. if reviews_id r = reviewId
                      then r\<lparr> status := st, current_stage := or_null cs, updated_at := now \<rparr>
                      else r) rs))
        = map (\<lambda>_. st) (map status (filter (\<lambda>r. reviews_id r = reviewId) rs))" for rs
    by (induction rs) simp_all
  then show ?thesis
    by (simp add: review_status_def update_status_def)
qed

lemma review_status_store_findings:
  "review_status reviewId (store_findings reviewId fs synthesis now s) = review_status reviewId s"
proof -
  have "map status (filter (\<lambda>r. reviews_id r = reviewId)
           (map (\<lambda>r. if reviews_id r = reviewId
                      then r\<lparr> total_findings_raw := a, total_findings_filtered := b,
                              noise_reduction_percent := c, updated_at := now \<rparr>
                      else r) rs))
        = map status (filter (\<lambda>r. reviews_id r = reviewId) rs)" for rs a b c
    by (induction rs) simp_all
  then show ?thesis
    by (simp add: review_status_def store_findings_def Let_def)
qed

lemma review_status_store_remediations:
  "review_status reviewId (store_remediations reviewId rems s) = review_status reviewId s"
  by (simp add: review_status_def store_remediations_frame)

lemma errors_update_status:
  "map error (reviews (update_status reviewId st cs now s)) = map error (reviews s)"
  by (simp add: update_status_def comp_def)

subsection \<open>The three phases\<close>

lemma run_joined:
  assumes "step_do 2 (triage_attempt E) = Inr triage"
    and "step_do 2 (dependency_attempt E triage) = Inr d"
    and "step_do 2 (auth_attempt E triage) = Inr a"
    and "step_do 2 (injection_attempt E triage) = Inr i"
    and "step_do 2 (secrets_attempt E) = Inr c"
  shows "run E reviewId s =
           filtering_phase E reviewId triage (d @ a @ i @ c)
             [Triage, Dependency, Auth, Injection, Secrets]
             (update_status reviewId ''analyzing'' (Some ''dependency'')
                (clock E ''update-status-analyzing'') s)"
  using assms by (simp add: run_def promise_all4_def Let_def)

lemma run_not_joined:
  assumes "step_do 2 (triage_attempt E) = Inr triage"
    and "isl (step_do 2 (dependency_attempt E triage)) \<or> isl (step_do 2 (auth_attempt E triage))
         \<or> isl (step_do 2 (injection_attempt E triage)) \<or> isl (step_do 2 (secrets_attempt E))"
  shows "\<exists>e. run E reviewId s =
           \<lparr> final = update_status reviewId ''analyzing'' (Some ''dependency'')
                       (clock E ''update-status-analyzing'') s,
             begun = [Triage, Dependency, Auth, Injection, Secrets],
             remediation_input = None, outcome = Inl e \<rparr>"
proof -
  from assms(2) have "isl (promise_all4 (step_do 2 (dependency_attempt E triage))
      (step_do 2 (auth_attempt E triage)) (step_do 2 (injection_attempt E triage))
      (step_do 2 (secrets_attempt E)))"
    by (simp add: promise_all4_Inl)
  then obtain e where "promise_all4 (step_do 2 (dependency_attempt E triage))
      (step_do 2 (auth_attempt E triage)) (step_do 2 (injection_attempt E triage))
      (step_do 2 (secrets_attempt E)) = Inl e"
    by (auto simp: isl_def)
  with assms(1) show ?thesis
    by (simp add: run_def Let_def)
qed

lemma run_triage_failed:
  assumes "step_do 2 (triage_attempt E) = Inl e"
  shows "run E reviewId s =
           \<lparr> final = s, begun = [Triage], remediation_input = None, outcome = Inl e \<rparr>"
  using assms by (simp add: run_def)

lemma filtering_phase_suspended:
  assumes "step_do 2 (reachability_attempt E allRaw (dataFlowMap triage)) = Inr filteredFindings"
    and "step_do 2 (synthesis_attempt E (length allRaw) filteredFindings) = Inr synthesis"
  shows "filtering_phase E reviewId triage allRaw tr s =
           approval_phase E reviewId filteredFindings synthesis (tr @ [Reachability, Synthesis])
             (update_status reviewId ''awaiting_approval'' (Some ''approval'')
                (clock E ''update-status-awaiting-approval'')
                (store_findings reviewId filteredFindings synthesis (clock E ''store-findings'')
                   (update_status reviewId ''filtering'' (Some ''reachability'')
                      (clock E ''update-status-filtering'') s)))"
  using assms by (simp add: filtering_phase_def Let_def)

lemma approval_phase_declined:
  assumes "approval_wait E = Some approval"
    and "\<not> approved approval \<or> findingIds approval = []"
  shows "approval_phase E reviewId filteredFindings synthesis tr s =
           \<lparr> final = update_status reviewId ''completed'' None
                       (clock E ''update-status-completed-no-remediation'') s,
             begun = tr, remediation_input = None, outcome = Inr (synthesis, []) \<rparr>"
  using assms by (auto simp: approval_phase_def)

lemma approval_phase_timeout:
  assumes "approval_wait E = None"
  shows "approval_phase E reviewId filteredFindings synthesis tr s =
           \<lparr> final = s, begun = tr, remediation_input = None,
             outcome = Inl (Error ''waitForEvent timed out'') \<rparr>"
  using assms by (simp add: approval_phase_def)

lemma approval_phase_approved:
  assumes "approval_wait E = Some approval" "approved approval" "findingIds approval \<noteq> []"
  shows "approval_phase E reviewId filteredFindings synthesis tr s =
     (case step_do 2 (remediation_attempt E
             (filter (\<lambda>f. isReachable f \<and> Finding_id f \<in> set (findingIds approval))
                filteredFindings)) of
        Inl e \<Rightarrow>
          \<lparr> final = update_status reviewId ''remediating'' (Some ''remediation'')
                      (clock E ''update-status-remediating'') s,
            begun = tr @ [Remediation],
            remediation_input =
              Some (filter (\<lambda>f. isReachable f \<and> Finding_id f \<in> set (findingIds approval))
                      filteredFindings),
            outcome = Inl e \<rparr>
      | Inr rems \<Rightarrow>
          \<lparr> final = update_status reviewId ''completed'' None
                      (clock E ''update-status-completed'')
                      (store_remediations reviewId rems
                         (update_status reviewId ''remediating'' (Some ''remediation'')
                            (clock E ''update-status-remediating'') s)),
            begun = tr @ [Remediation],
            remediation_input =
              Some (filter (\<lambda>f. isReachable f \<and> Finding_id f \<in> set (findingIds approval))
                      filteredFindings),
            outcome = Inr (synthesis, rems) \<rparr>)"
  using assms by (simp add: approval_phase_def Let_def)

lemma run_suspended:
  assumes t: "step_do 2 (triage_attempt E) = Inr triage"
    and j: "promise_all4 (step_do 2 (dependency_attempt E triage))
              (step_do 2 (auth_attempt E triage)) (step_do 2 (injection_attempt E triage))
              (step_do 2 (secrets_attempt E)) = Inr (d, a, i, c)"
    and f: "step_do 2 (reachability_attempt E (d @ a @ i @ c) (dataFlowMap triage))
              = Inr filteredFindings"
    and y: "step_do 2 (synthesis_attempt E (length (d @ a @ i @ c)) filteredFindings)
              = Inr synthesis"
  shows "run E reviewId s =
           approval_phase E reviewId filteredFindings synthesis
             [Triage, Dependency, Auth, Injection, Secrets, Reachability, Synthesis]
             (update_status reviewId ''awaiting_approval'' (Some ''approval'')
                (clock E ''update-status-awaiting-approval'')
                (store_findings reviewId filteredFindings synthesis (clock E ''store-findings'')
                   (update_status reviewId ''filtering'' (Some ''reachability'')
                      (clock E ''update-status-filtering'')
                      (update_status reviewId ''analyzing'' (Some ''dependency'')
                         (clock E ''update-status-analyzing'') s))))"
proof -
  from j have "step_do 2 (dependency_attempt E triage) = Inr d"
    "step_do 2 (auth_attempt E triage) = Inr a"
    "step_do 2 (injection_attempt E triage) = Inr i"
    "step_do 2 (secrets_attempt E) = Inr c"
    by (simp_all add: promise_all4_Inr)
  from run_joined [OF t this] filtering_phase_suspended [OF f y]
  show ?thesis by simp
qed

lemma suspended_store:
  "remediations
     (update_status reviewId st3 cs3 n3
        (store_findings reviewId fs synthesis n2
           (update_status reviewId st1 cs1 n1 (update_status reviewId st0 cs0 n0 s))))
     = remediations s"
  "review_status reviewId
     (update_status reviewId st3 cs3 n3
        (store_findings reviewId fs synthesis n2
           (update_status reviewId st1 cs1 n1 (update_status reviewId st0 cs0 n0 s))))
     = map (\<lambda>_. st3) (review_status reviewId s)"
  by (simp_all add: update_status_frame store_findings_frame review_status_update_status
        review_status_store_findings comp_def)

subsection \<open>The sample run\<close>

lemma step_do_const: "step_do 2 (\<lambda>k. v) = v"
  by (simp add: step_do_2 split: sum.splits)

lemma sample_steps:
  "step_do 2 (triage_attempt (sample_runs dep ap)) = Inr sample_triage"
  "step_do 2 (dependency_attempt (sample_runs dep ap) tr) = step_do 2 dep"
  "step_do 2 (auth_attempt (sample_runs dep ap) tr)
     = Inr [JObj [(''id'', JStr ''A-1''), (''category'', JStr ''auth'')]]"
  "step_do 2 (injection_attempt (sample_runs dep ap) sample_triage)
     = Inr [JObj [(''category'', JStr ''xss''), (''id'', JStr ''inj-0-lx3k2a-q7w9e1'')],
            JObj [(''id'', JStr ''F-7''), (''category'', JStr ''injection'')]]"
  "step_do 2 (secrets_attempt (sample_runs dep ap)) = Inr []"
  "step_do 2 (reachability_attempt (sample_runs dep ap) raw dfm) = Inr sample_filtered"
  "step_do 2 (synthesis_attempt (sample_runs dep ap) n fs)
     = Inr (runSynthesisStage ''two of three reachable'' n fs)"
  "step_do 2 (remediation_attempt (sample_runs dep ap) fs) = Inr (map sample_remediation fs)"
  "approval_wait (sample_runs dep ap) = ap"
  by (simp_all add: step_do_2 sample_runs_def sample_injection_run sample_secrets_prose)

lemma sample_joined:
  "promise_all4 (step_do 2 (dependency_attempt (sample_runs (\<lambda>k. Inr []) ap) sample_triage))
     (step_do 2 (auth_attempt (sample_runs (\<lambda>k. Inr []) ap) sample_triage))
     (step_do 2 (injection_attempt (sample_runs (\<lambda>k. Inr []) ap) sample_triage))
     (step_do 2 (secrets_attempt (sample_runs (\<lambda>k. Inr []) ap)))
   = Inr ([], [JObj [(''id'', JStr ''A-1''), (''category'', JStr ''auth'')]],
          [JObj [(''category'', JStr ''xss''), (''id'', JStr ''inj-0-lx3k2a-q7w9e1'')],
           JObj [(''id'', JStr ''F-7''), (''category'', JStr ''injection'')]], [])"
  by (simp add: sample_steps step_do_const promise_all4_def)

lemma sample_remediation_contract:
  "remediation_attempt (sample_runs dep ap) fs k = Inr rs
     \<Longrightarrow> findingId ` set rs \<subseteq> Finding_id ` set fs"
  by (auto simp: sample_runs_def sample_remediation_def)

lemma sample_db_status:
  "review_status ''rev-1'' sample_db = [''pending'']" "remediations sample_db = []"
  "map error (reviews sample_db) = [None]"
  by (simp_all add: review_status_def sample_db_def new_review_def)

lemma sample_approved:
  "filter (\<lambda>f. isReachable f \<and>
              Finding_id f \<in> set (findingIds \<lparr>approved = True, findingIds = [''f1'', ''f2'']\<rparr>))
     sample_filtered
   = [sample_finding ''f1'' ''high'' True]"
  by (simp add: sample_filtered_def sample_finding_def)

lemma sample_dependency_exhausted:
  "isl (step_do 2 (dependency_attempt
          (sample_runs (\<lambda>k. Inl (Error ''inference call failed'')) ap) sample_triage))"
  by (simp add: sample_steps step_do_const)

subsection \<open>Remediation after approval\<close>

text \<open>
  Claim C4. In a run that reaches the suspension point and receives an approval event
  with \<open>approved\<close> true and a non-empty \<open>findingIds\<close>, the remediation stage is called on
  exactly the filtered findings that are reachable and whose id is in \<open>findingIds\<close>, in
  their order. The remediations stored are the ones that call returns, and none when it
  fails. When the stage returns records only for findings it was handed, every new row of
  \<open>remediations\<close> belongs to a finding that is both reachable and named: a finding that is
  named but not reachable, or reachable but not named, gets none.
\<close>

theorem remediation_over_approved_reachable:
  assumes t: "step_do 2 (triage_attempt E) = Inr triage"
    and j: "promise_all4 (step_do 2 (dependency_attempt E triage))
              (step_do 2 (auth_attempt E triage)) (step_do 2 (injection_attempt E triage))
              (step_do 2 (secrets_attempt E)) = Inr (d, a, i, c)"
    and f: "step_do 2 (reachability_attempt E (d @ a @ i @ c) (dataFlowMap triage))
              = Inr filteredFindings"
    and y: "step_do 2 (synthesis_attempt E (length (d @ a @ i @ c)) filteredFindings)
              = Inr synthesis"
    and w: "approval_wait E = Some approval"
    and ok: "approved approval"
    and ids: "findingIds approval \<noteq> []"
    and contract: "\<And>fs k rs. remediation_attempt E fs k = Inr rs
                     \<Longrightarrow> findingId ` set rs \<subseteq> Finding_id ` set fs"
  shows "remediation_input (run E reviewId s)
           = Some (filter (\<lambda>f. isReachable f \<and> Finding_id f \<in> set (findingIds approval))
                     filteredFindings)
       \<and> begun (run E reviewId s)
           = [Triage, Dependency, Auth, Injection, Secrets, Reachability, Synthesis, Remediation]
       \<and> (case step_do 2 (remediation_attempt E
                   (filter (\<lambda>f. isReachable f \<and> Finding_id f \<in> set (findingIds approval))
                      filteredFindings)) of
             Inl e \<Rightarrow> outcome (run E reviewId s) = Inl e
                      \<and> remediations (final (run E reviewId s)) = remediations s
           | Inr rems \<Rightarrow> outcome (run E reviewId s) = Inr (synthesis, rems)
                      \<and> remediations (final (run E reviewId s))
                          = foldl (\<lambda>tbl rem. insert_or_replace remediations_id
                                               (remediation_to_row reviewId rem) tbl)
                                  (remediations s) rems)
       \<and> list_all (\<lambda>row. row \<in> set (remediations s) \<or>
                     (\<exists>f \<in> set filteredFindings. isReachable f \<and>
                        Finding_id f \<in> set (findingIds approval) \<and>
                        finding_id row = Finding_id f))
           (remediations (final (run E reviewId s)))"
proof -
  let ?approvedFindings =
    "filter (\<lambda>f. isReachable f \<and> Finding_id f \<in> set (findingIds approval)) filteredFindings"
  let ?R = "run E reviewId s"
  note R = run_suspended [OF t j f y, of reviewId s]
    approval_phase_approved [OF w ok ids]
  have one: "remediation_input ?R = Some ?approvedFindings"
    unfolding R by (simp split: sum.splits)
  have two: "begun ?R
      = [Triage, Dependency, Auth, Injection, Secrets, Reachability, Synthesis, Remediation]"
    unfolding R by (simp split: sum.splits)
  have three: "(case step_do 2 (remediation_attempt E ?approvedFindings) of
             Inl e \<Rightarrow> outcome ?R = Inl e \<and> remediations (final ?R) = remediations s
           | Inr rems \<Rightarrow> outcome ?R = Inr (synthesis, rems)
                      \<and> remediations (final ?R)
                          = foldl (\<lambda>tbl rem. insert_or_replace remediations_id
                                               (remediation_to_row reviewId rem) tbl)
                                  (remediations s) rems)"
    unfolding R
    by (simp add: update_status_frame store_findings_frame store_remediations_def
          split: sum.splits)
  have four: "list_all (\<lambda>row. row \<in> set (remediations s) \<or>
                     (\<exists>f \<in> set filteredFindings. isReachable f \<and>
                        Finding_id f \<in> set (findingIds approval) \<and>
                        finding_id row = Finding_id f))
           (remediations (final ?R))"
    unfolding list_all_iff
  proof
    fix row
    assume row: "row \<in> set (remediations (final ?R))"
    show "row \<in> set (remediations s) \<or>
            (\<exists>f \<in> set filteredFindings. isReachable f \<and>
               Finding_id f \<in> set (findingIds approval) \<and> finding_id row = Finding_id f)"
    proof (cases "step_do 2 (remediation_attempt E ?approvedFindings)")
      case (Inl e)
      with three row show ?thesis by simp
    next
      case (Inr rems)
      with three have "remediations (final ?R)
          = foldl (\<lambda>tbl rem. insert_or_replace remediations_id
                               (remediation_to_row reviewId rem) tbl) (remediations s) rems"
        by simp
      with row set_foldl_ior [of remediations_id "remediation_to_row reviewId"
          "remediations s" rems]
      have "row \<in> set (remediations s) \<or> row \<in> remediation_to_row reviewId ` set rems"
        by auto
      then show ?thesis
      proof
        assume "row \<in> set (remediations s)"
        then show ?thesis ..
      next
        assume "row \<in> remediation_to_row reviewId ` set rems"
        then obtain rem where rem: "rem \<in> set rems" and r: "row = remediation_to_row reviewId rem"
          by blast
        from step_do_2_result [OF Inr] obtain k
          where "remediation_attempt E ?approvedFindings k = Inr rems" ..
        from contract [OF this] rem
        obtain f where "f \<in> set ?approvedFindings" and "findingId rem = Finding_id f"
          by auto
        with r have "f \<in> set filteredFindings" "isReachable f"
          "Finding_id f \<in> set (findingIds approval)" "finding_id row = Finding_id f"
          by (simp_all add: remediation_to_row_def)
        then show ?thesis by blast
      qed
    qed
  qed
  from one two three four show ?thesis by blast
qed

theorem remediation_over_approved_reachable_witness:
  "remediation_input
     (run (sample_runs (\<lambda>k. Inr []) (Some \<lparr>approved = True, findingIds = [''f1'', ''f2'']\<rparr>))
        ''rev-1'' sample_db)
   = Some [sample_finding ''f1'' ''high'' True]
   \<and> map finding_id (remediations (final
       (run (sample_runs (\<lambda>k. Inr []) (Some \<lparr>approved = True, findingIds = [''f1'', ''f2'']\<rparr>))
          ''rev-1'' sample_db)))
   = [''f1'']"
proof -
  let ?ap = "\<lparr>approved = True, findingIds = [''f1'', ''f2'']\<rparr>"
  let ?E = "sample_runs (\<lambda>k. Inr []) (Some ?ap)"
  have ok: "approved ?ap" and ids: "findingIds ?ap \<noteq> []"
    by simp_all
  note T = remediation_over_approved_reachable
         [where E = ?E and reviewId = "''rev-1''" and s = sample_db,
          OF sample_steps(1) sample_joined sample_steps(6) sample_steps(7)
            sample_steps(9) ok ids sample_remediation_contract]
  from T [THEN conjunct1]
  have one: "remediation_input (run ?E ''rev-1'' sample_db)
               = Some [sample_finding ''f1'' ''high'' True]"
    unfolding sample_approved .
  from T [THEN conjunct2, THEN conjunct2, THEN conjunct1]
  have "remediations (final (run ?E ''rev-1'' sample_db))
          = [remediation_to_row ''rev-1'' (sample_remediation (sample_finding ''f1'' ''high'' True))]"
    unfolding sample_approved sample_steps(8)
    by (simp add: sample_db_status insert_or_replace_def)
  then have two: "map finding_id (remediations (final (run ?E ''rev-1'' sample_db))) = [''f1'']"
    by (simp add: remediation_to_row_def sample_remediation_def sample_finding_def)
  from one two show ?thesis by blast
qed

subsection \<open>Rejection and timeout\<close>

text \<open>
  Claim C5, as stated, fails on the timeout: when no approval event arrives within the
  wait window, \<open>step.waitForEvent\<close> rejects, \<open>run\<close> ends there, and the review keeps the
  status \<open>awaiting_approval\<close> instead of \<open>completed\<close>.
\<close>

theorem approval_timeout_leaves_awaiting_approval:
  "review_status ''rev-1'' (final (run (sample_runs (\<lambda>k. Inr []) None) ''rev-1'' sample_db))
     = [''awaiting_approval'']"
proof -
  have "approval_wait (sample_runs (\<lambda>k. Inr []) None) = None"
    by (simp add: sample_steps)
  note R = run_suspended [where E = "sample_runs (\<lambda>k. Inr []) None"
               and reviewId = "''rev-1''" and s = sample_db,
             OF sample_steps(1) sample_joined sample_steps(6) sample_steps(7)]
    approval_phase_timeout [OF this]
  show ?thesis
    unfolding R by (simp add: suspended_store sample_db_status)
qed

text \<open>
  Claim C5, amended. In a run that reaches the suspension point: an event with \<open>approved\<close>
  false, or with an empty \<open>findingIds\<close>, leaves the review with status \<open>completed\<close> and
  \<open>run\<close> resolves with no remediations; when no event arrives within the wait window the
  review keeps the status \<open>awaiting_approval\<close> and \<open>run\<close> rejects. In all three cases the
  \<open>remediations\<close> table is unchanged and the remediation stage is never called.
\<close>

theorem no_remediation_without_approval:
  assumes t: "step_do 2 (triage_attempt E) = Inr triage"
    and j: "promise_all4 (step_do 2 (dependency_attempt E triage))
              (step_do 2 (auth_attempt E triage)) (step_do 2 (injection_attempt E triage))
              (step_do 2 (secrets_attempt E)) = Inr (d, a, i, c)"
    and f: "step_do 2 (reachability_attempt E (d @ a @ i @ c) (dataFlowMap triage))
              = Inr filteredFindings"
    and y: "step_do 2 (synthesis_attempt E (length (d @ a @ i @ c)) filteredFindings)
              = Inr synthesis"
  shows "(\<forall>approval. approval_wait E = Some approval \<and>
            (\<not> approved approval \<or> findingIds approval = []) \<longrightarrow>
            review_status reviewId (final (run E reviewId s))
              = map (\<lambda>_. ''completed'') (review_status reviewId s) \<and>
            outcome (run E reviewId s) = Inr (synthesis, []))
       \<and> (approval_wait E = None \<longrightarrow>
            review_status reviewId (final (run E reviewId s))
              = map (\<lambda>_. ''awaiting_approval'') (review_status reviewId s) \<and>
            outcome (run E reviewId s) = Inl (Error ''waitForEvent timed out''))
       \<and> ((approval_wait E = None \<or>
            (\<exists>approval. approval_wait E = Some approval \<and>
               (\<not> approved approval \<or> findingIds approval = []))) \<longrightarrow>
            remediations (final (run E reviewId s)) = remediations s \<and>
            remediation_input (run E reviewId s) = None \<and>
            Remediation \<notin> set (begun (run E reviewId s)))"
proof (intro conjI allI impI)
  note R = run_suspended [OF t j f y, of reviewId s]
  {
    fix approval
    assume "approval_wait E = Some approval \<and> (\<not> approved approval \<or> findingIds approval = [])"
    then have w: "approval_wait E = Some approval"
      and no: "\<not> approved approval \<or> findingIds approval = []"
      by simp_all
    note D = approval_phase_declined [OF w no]
    show "review_status reviewId (final (run E reviewId s))
            = map (\<lambda>_. ''completed'') (review_status reviewId s)"
      unfolding R D
      by (simp add: review_status_update_status review_status_store_findings comp_def)
    show "outcome (run E reviewId s) = Inr (synthesis, [])"
      unfolding R D by simp
  }
  {
    assume w: "approval_wait E = None"
    note T = approval_phase_timeout [OF w]
    show "review_status reviewId (final (run E reviewId s))
            = map (\<lambda>_. ''awaiting_approval'') (review_status reviewId s)"
      unfolding R T by (simp add: suspended_store)
    show "outcome (run E reviewId s) = Inl (Error ''waitForEvent timed out'')"
      unfolding R T by simp
  }
  {
    assume "approval_wait E = None \<or>
            (\<exists>approval. approval_wait E = Some approval \<and>
               (\<not> approved approval \<or> findingIds approval = []))"
    then have "remediations (final (run E reviewId s)) = remediations s \<and>
            remediation_input (run E reviewId s) = None \<and>
            Remediation \<notin> set (begun (run E reviewId s))"
    proof
      assume w: "approval_wait E = None"
      show ?thesis
        unfolding R approval_phase_timeout [OF w] by (simp add: suspended_store)
    next
      assume "\<exists>approval. approval_wait E = Some approval \<and>
               (\<not> approved approval \<or> findingIds approval = [])"
      then obtain approval where w: "approval_wait E = Some approval"
        and no: "\<not> approved approval \<or> findingIds approval = []"
        by blast
      show ?thesis
        unfolding R approval_phase_declined [OF w no]
        by (simp add: update_status_frame store_findings_frame)
    qed
    then show "remediations (final (run E reviewId s)) = remediations s"
      and "remediation_input (run E reviewId s) = None"
      and "Remediation \<notin> set (begun (run E reviewId s))"
      by simp_all
  }
qed

theorem no_remediation_without_approval_witness:
  "review_status ''rev-1''
     (final (run (sample_runs (\<lambda>k. Inr []) (Some \<lparr>approved = False, findingIds = [''f1'']\<rparr>))
               ''rev-1'' sample_db))
     = [''completed'']
   \<and> remediation_input
       (run (sample_runs (\<lambda>k. Inr []) (Some \<lparr>approved = True, findingIds = []\<rparr>))
          ''rev-1'' sample_db) = None
   \<and> outcome (run (sample_runs (\<lambda>k. Inr []) None) ''rev-1'' sample_db)
       = Inl (Error ''waitForEvent timed out'')"
proof -
  let ?no = "\<lparr>approved = False, findingIds = [''f1'']\<rparr>"
  let ?none = "\<lparr>approved = True, findingIds = []\<rparr>"
  note T = no_remediation_without_approval
             [where reviewId = "''rev-1''" and s = sample_db,
              OF sample_steps(1) sample_joined sample_steps(6) sample_steps(7)]
  have "approval_wait (sample_runs (\<lambda>k. Inr []) (Some ?no)) = Some ?no \<and>
          (\<not> approved ?no \<or> findingIds ?no = [])"
    by (simp add: sample_steps)
  from T [THEN conjunct1, THEN spec, THEN mp, OF this, THEN conjunct1]
  have one: "review_status ''rev-1''
     (final (run (sample_runs (\<lambda>k. Inr []) (Some ?no)) ''rev-1'' sample_db)) = [''completed'']"
    by (simp add: sample_db_status)
  have "approval_wait (sample_runs (\<lambda>k. Inr []) (Some ?none)) = None \<or>
          (\<exists>approval. approval_wait (sample_runs (\<lambda>k. Inr []) (Some ?none)) = Some approval \<and>
             (\<not> approved approval \<or> findingIds approval = []))"
    by (simp add: sample_steps)
  from T [THEN conjunct2, THEN conjunct2, THEN mp, OF this, THEN conjunct2, THEN conjunct1]
  have two: "remediation_input
       (run (sample_runs (\<lambda>k. Inr []) (Some ?none)) ''rev-1'' sample_db) = None" .
  have "approval_wait (sample_runs (\<lambda>k. Inr []) None) = None"
    by (simp add: sample_steps)
  from T [THEN conjunct2, THEN conjunct1, THEN mp, OF this, THEN conjunct2]
  have three: "outcome (run (sample_runs (\<lambda>k. Inr []) None) ''rev-1'' sample_db)
       = Inl (Error ''waitForEvent timed out'')" .
  from one two three show ?thesis by blast
qed

subsection \<open>The join of the four analysis stages\<close>

text \<open>
  Claim C6, as stated, fails in its last part: when the dependency stage has used up its
  retries the run rejects, but nothing writes the status \<open>failed\<close> or the \<open>error\<close> column:
  the review keeps the status \<open>analyzing\<close> and its \<open>error\<close> stays \<open>NULL\<close>.
\<close>

theorem analysis_failure_leaves_analyzing:
  "review_status ''rev-1''
     (final (run (sample_runs (\<lambda>k. Inl (Error ''inference call failed''))
                    (Some \<lparr>approved = True, findingIds = [''f1'']\<rparr>))
               ''rev-1'' sample_db))
     = [''analyzing'']
   \<and> map error
       (reviews (final (run (sample_runs (\<lambda>k. Inl (Error ''inference call failed''))
                               (Some \<lparr>approved = True, findingIds = [''f1'']\<rparr>))
                          ''rev-1'' sample_db)))
     = [None]"
proof -
  let ?E = "sample_runs (\<lambda>k. Inl (Error ''inference call failed''))
              (Some \<lparr>approved = True, findingIds = [''f1'']\<rparr>)"
  have "isl (step_do 2 (dependency_attempt ?E sample_triage)) \<or>
        isl (step_do 2 (auth_attempt ?E sample_triage)) \<or>
        isl (step_do 2 (injection_attempt ?E sample_triage)) \<or>
        isl (step_do 2 (secrets_attempt ?E))"
    using sample_dependency_exhausted by blast
  from run_not_joined [where reviewId = "''rev-1''" and s = sample_db,
         OF sample_steps(1) this]
  obtain e where R: "run ?E ''rev-1'' sample_db =
           \<lparr> final = update_status ''rev-1'' ''analyzing'' (Some ''dependency'')
                       (clock ?E ''update-status-analyzing'') sample_db,
             begun = [Triage, Dependency, Auth, Injection, Secrets],
             remediation_input = None, outcome = Inl e \<rparr>" ..
  show ?thesis
    unfolding R
    by (simp add: review_status_update_status errors_update_status sample_db_status)
qed

text \<open>
  Claim C6, amended. The reachability filter begins only in a run in which triage and all
  four analysis steps (dependency, auth, injection, secrets) have produced a result. When
  the step of one of the four rejects (its retries are used up), neither the reachability
  filter nor the synthesis begins, \<open>run\<close> rejects, no finding is stored, and the review is
  left with the status \<open>analyzing\<close> and its \<open>error\<close> column untouched.
\<close>

theorem filter_waits_for_all_four:
  "(Reachability \<in> set (begun (run E reviewId s)) \<longrightarrow>
      (\<exists>triage d a i c. step_do 2 (triage_attempt E) = Inr triage \<and>
         step_do 2 (dependency_attempt E triage) = Inr d \<and>
         step_do 2 (auth_attempt E triage) = Inr a \<and>
         step_do 2 (injection_attempt E triage) = Inr i \<and>
         step_do 2 (secrets_attempt E) = Inr c))
   \<and> (\<forall>triage. step_do 2 (triage_attempt E) = Inr triage \<and>
         (isl (step_do 2 (dependency_attempt E triage)) \<or>
          isl (step_do 2 (auth_attempt E triage)) \<or>
          isl (step_do 2 (injection_attempt E triage)) \<or>
          isl (step_do 2 (secrets_attempt E))) \<longrightarrow>
         Reachability \<notin> set (begun (run E reviewId s)) \<and>
         Synthesis \<notin> set (begun (run E reviewId s)) \<and>
         isl (outcome (run E reviewId s)) \<and>
         findings (final (run E reviewId s)) = findings s \<and>
         review_status reviewId (final (run E reviewId s))
           = map (\<lambda>_. ''analyzing'') (review_status reviewId s) \<and>
         map error (reviews (final (run E reviewId s))) = map error (reviews s))"
proof (intro conjI allI impI)
  fix triage
  assume "step_do 2 (triage_attempt E) = Inr triage \<and>
         (isl (step_do 2 (dependency_attempt E triage)) \<or>
          isl (step_do 2 (auth_attempt E triage)) \<or>
          isl (step_do 2 (injection_attempt E triage)) \<or>
          isl (step_do 2 (secrets_attempt E)))"
  then obtain e where R: "run E reviewId s =
           \<lparr> final = update_status reviewId ''analyzing'' (Some ''dependency'')
                       (clock E ''update-status-analyzing'') s,
             begun = [Triage, Dependency, Auth, Injection, Secrets],
             remediation_input = None, outcome = Inl e \<rparr>"
    using run_not_joined [of E triage reviewId s] by blast
  show "Reachability \<notin> set (begun (run E reviewId s))"
    and "Synthesis \<notin> set (begun (run E reviewId s))"
    and "isl (outcome (run E reviewId s))"
    and "findings (final (run E reviewId s)) = findings s"
    and "review_status reviewId (final (run E reviewId s))
           = map (\<lambda>_. ''analyzing'') (review_status reviewId s)"
    and "map error (reviews (final (run E reviewId s))) = map error (reviews s)"
    unfolding R
    by (simp_all add: update_status_frame review_status_update_status errors_update_status)
next
  assume reach: "Reachability \<in> set (begun (run E reviewId s))"
  show "\<exists>triage d a i c. step_do 2 (triage_attempt E) = Inr triage \<and>
         step_do 2 (dependency_attempt E triage) = Inr d \<and>
         step_do 2 (auth_attempt E triage) = Inr a \<and>
         step_do 2 (injection_attempt E triage) = Inr i \<and>
         step_do 2 (secrets_attempt E) = Inr c"
  proof (cases "step_do 2 (triage_attempt E)")
    case (Inl e)
    from reach show ?thesis
      unfolding run_triage_failed [OF Inl] by simp
  next
    case (Inr triage)
    show ?thesis
    proof (cases "isl (step_do 2 (dependency_attempt E triage)) \<or>
          isl (step_do 2 (auth_attempt E triage)) \<or>
          isl (step_do 2 (injection_attempt E triage)) \<or>
          isl (step_do 2 (secrets_attempt E))")
      case True
      from run_not_joined [OF Inr True, of reviewId s] reach show ?thesis
        by auto
    next
      case False
      then obtain d a i c where "step_do 2 (dependency_attempt E triage) = Inr d"
        "step_do 2 (auth_attempt E triage) = Inr a"
        "step_do 2 (injection_attempt E triage) = Inr i"
        "step_do 2 (secrets_attempt E) = Inr c"
        by (auto simp: isl_def) (metis sum.exhaust)+
      with Inr show ?thesis by blast
    qed
  qed
qed

theorem filter_waits_for_all_four_witness:
  "Reachability \<notin> set (begun
      (run (sample_runs (\<lambda>k. Inl (Error ''inference call failed''))
              (Some \<lparr>approved = True, findingIds = [''f1'']\<rparr>)) ''rev-1'' sample_db))
   \<and> Synthesis \<notin> set (begun
      (run (sample_runs (\<lambda>k. Inl (Error ''inference call failed''))
              (Some \<lparr>approved = True, findingIds = [''f1'']\<rparr>)) ''rev-1'' sample_db))
   \<and> isl (outcome
      (run (sample_runs (\<lambda>k. Inl (Error ''inference call failed''))
              (Some \<lparr>approved = True, findingIds = [''f1'']\<rparr>)) ''rev-1'' sample_db))"
proof -
  let ?E = "sample_runs (\<lambda>k. Inl (Error ''inference call failed''))
              (Some \<lparr>approved = True, findingIds = [''f1'']\<rparr>)"
  have "step_do 2 (triage_attempt ?E) = Inr sample_triage \<and>
       (isl (step_do 2 (dependency_attempt ?E sample_triage)) \<or>
        isl (step_do 2 (auth_attempt ?E sample_triage)) \<or>
        isl (step_do 2 (injection_attempt ?E sample_triage)) \<or>
        isl (step_do 2 (secrets_attempt ?E)))"
    using sample_dependency_exhausted sample_steps(1) by blast
  from filter_waits_for_all_four [where reviewId = "''rev-1''" and s = sample_db,
         THEN conjunct2, THEN spec, THEN mp, OF this]
  show ?thesis by blast
qed

subsection \<open>A parse failure in the dependency stage\<close>

text \<open>
  Claim C7 at the dependency adapter. On a response that is prose, \<open>runDependencyStage\<close>
  rejects with the error of \<open>parseJsonResponse\<close>; on a response that is a JSON object and
  not an array it rejects with a \<open>TypeError\<close>. The secrets and the injection adapter
  return the empty list on the same responses. In a run whose dependency stage meets the
  prose response at every attempt, \<open>run\<close> rejects with that parse error.
\<close>

theorem dependency_parse_failure_propagates:
  "runDependencyStage sample_decode sample_entropy (Inr (AiString sample_prose_text))
     = Inl (Error ''Failed to parse AI response as JSON'')
   \<and> runDependencyStage sample_decode sample_entropy (Inr (AiString sample_object_text))
     = Inl (TypeError ''findings.map is not a function'')
   \<and> runSecretsStage sample_decode sample_entropy (Inr (AiString sample_prose_text)) = Inr []
   \<and> runInjectionStage sample_decode sample_entropy sample_triage
        (Inr (AiString sample_object_text)) = Inr []
   \<and> outcome (run (sample_runs
                     (\<lambda>k. runDependencyStage sample_decode sample_entropy
                            (Inr (AiString sample_prose_text)))
                     (Some \<lparr>approved = True, findingIds = [''f1'']\<rparr>))
                ''rev-1'' sample_db)
     = Inl (Error ''Failed to parse AI response as JSON'')"
  by (simp add: runDependencyStage_def runSecretsStage_def runInjectionStage_def
        runAIAnalysis_def parseJsonResponse_def sample_decode_values Let_def
        run_def sample_steps step_do_const promise_all4_def)

end
